theory Spec2Isabelle
  imports Complex_Main "HOL-Library.Stream"
begin

section \<open>Python, NumPy and OpenCV primitives used by the renderer\<close>

text \<open>
  The renderer (\<^verbatim>\<open>src/textrenderer/renderer.py\<close>) is Python over NumPy, OpenCV and PIL.
  Python integers are unbounded and are modelled as \<open>int\<close>. Python floats are modelled
  as \<open>real\<close>: the arithmetic is exact, where the program rounds to IEEE-754 doubles.
  Every concrete input evaluated below is chosen so that the double computation gives the
  same values (small integers and dyadic fractions).

  Exceptions are values: a function that can raise returns \<open>error + result\<close>.
  The random module is a tape of raw draws (\<open>nat stream\<close>) that every drawing function
  reads from the head and hands back advanced, so each function of the model is a
  deterministic function of its inputs and the tape.
\<close>

datatype error =
    AssertionError
  | IndexError
  | KeyError
  | ValueError
  | ZeroDivisionError
  | CvError
  | PickFontException

type_synonym rng = "nat stream"

text \<open>\<^verbatim>\<open>int(x)\<close> on a float: truncation toward zero.\<close>

definition py_int :: "real \<Rightarrow> int" where
  "py_int x = (if 0 \<le> x then \<lfloor>x\<rfloor> else \<lceil>x\<rceil>)"

text \<open>
  \<^verbatim>\<open>np.around\<close>, Python's \<^verbatim>\<open>round\<close> and OpenCV's \<^verbatim>\<open>cvRound\<close>: to the nearest
  integer, a tie to the even neighbour.
\<close>

definition np_around :: "real \<Rightarrow> int" where
  "np_around x =
     (let f = \<lfloor>x\<rfloor>; d = x - of_int f
      in if d < 1 / 2 then f
         else if 1 / 2 < d then f + 1
         else if even f then f else f + 1)"

text \<open>
  \<^verbatim>\<open>random.randint(a, b)\<close>: an integer of the closed range \<open>[a, b]\<close>;
  ValueError on the empty range.
\<close>

definition randint :: "int \<Rightarrow> int \<Rightarrow> rng \<Rightarrow> error + (int \<times> rng)" where
  "randint a b r =
     (if b < a then Inl ValueError
      else Inr (a + int (shd r mod nat (b - a + 1)), stl r))"

text \<open>
  \<^verbatim>\<open>np.random.randint(low, high)\<close>: an integer of the half-open range \<open>[low, high)\<close>;
  ValueError when \<open>high \<le> low\<close>.
\<close>

definition np_randint :: "int \<Rightarrow> int \<Rightarrow> rng \<Rightarrow> error + (int \<times> rng)" where
  "np_randint low high r =
     (if high \<le> low then Inl ValueError
      else Inr (low + int (shd r mod nat (high - low)), stl r))"

text \<open>
  \<^verbatim>\<open>random.random()\<close>: a double \<open>k / 2^53\<close> with \<open>0 \<le> k < 2^53\<close>, so a value of
  \<open>[0, 1)\<close>. \<^verbatim>\<open>random.uniform(a, b)\<close> and \<^verbatim>\<open>np.random.uniform(a, b)\<close> are
  \<open>a + (b - a) * random()\<close>.
\<close>

definition random_unit :: "rng \<Rightarrow> real \<times> rng" where
  "random_unit r = (real (shd r mod 9007199254740992) / 9007199254740992, stl r)"

definition uniform :: "real \<Rightarrow> real \<Rightarrow> rng \<Rightarrow> real \<times> rng" where
  "uniform a b r = (a + (b - a) * fst (random_unit r), snd (random_unit r))"

text \<open>\<^verbatim>\<open>random.choice(seq)\<close>: IndexError on the empty sequence.\<close>

definition choice :: "'a list \<Rightarrow> rng \<Rightarrow> error + ('a \<times> rng)" where
  "choice xs r =
     (if xs = [] then Inl IndexError
      else Inr (xs ! (shd r mod length xs), stl r))"

section \<open>Rasters\<close>

text \<open>
  A NumPy image: its shape and its pixels, row first. Pixels are read only inside the
  shape; the pixel type is \<open>real\<close> (the renderer works on float arrays between stages).
\<close>

record raster =
  rows :: nat
  cols :: nat
  px :: "nat \<Rightarrow> nat \<Rightarrow> real"

text \<open>
  Basic slicing \<^verbatim>\<open>a[i:j]\<close> on an axis of length \<open>n\<close>: a negative index counts from
  the end, both ends are clamped to \<open>[0, n]\<close>, and the slice is empty when the stop is
  not beyond the start.
\<close>

definition slice_index :: "int \<Rightarrow> nat \<Rightarrow> nat" where
  "slice_index i n = (if i < 0 then nat (max 0 (i + int n)) else min (nat i) n)"

definition slice2 :: "raster \<Rightarrow> int \<Rightarrow> int \<Rightarrow> int \<Rightarrow> int \<Rightarrow> raster" where
  "slice2 img y0 y1 x0 x1 =
     (let r0 = slice_index y0 (rows img); r1 = slice_index y1 (rows img);
          c0 = slice_index x0 (cols img); c1 = slice_index x1 (cols img)
      in \<lparr>rows = r1 - r0, cols = c1 - c0, px = \<lambda>i j. px img (r0 + i) (c0 + j)\<rparr>)"

text \<open>\<^verbatim>\<open>word[:n]\<close> on a string.\<close>

definition py_take :: "int \<Rightarrow> 'a list \<Rightarrow> 'a list" where
  "py_take n xs = take (slice_index n (length xs)) xs"

definition np_mean :: "raster \<Rightarrow> real" where
  "np_mean img =
     (\<Sum>i<rows img. \<Sum>j<cols img. px img i j) / real (rows img * cols img)"

definition np_clip :: "raster \<Rightarrow> real \<Rightarrow> real \<Rightarrow> raster" where
  "np_clip img lo hi = img\<lparr>px := \<lambda>i j. min hi (max lo (px img i j))\<rparr>"

text \<open>\<^verbatim>\<open>np.uint8(a)\<close>: the fraction is dropped and the value wraps modulo 256.\<close>

definition np_uint8 :: "raster \<Rightarrow> raster" where
  "np_uint8 img = img\<lparr>px := \<lambda>i j. of_int (py_int (px img i j) mod 256)\<rparr>"

subsection \<open>OpenCV and PIL\<close>

text \<open>
  The shapes and the failures of the library calls are modelled; the pixel kernels
  (interpolation, convolution, Poisson blending, glyph rasterisation, font files) are
  parameters, collected in one record.
\<close>

datatype interpolation = INTER_LINEAR | INTER_CUBIC | INTER_AREA

type_synonym pystr = "nat list"
type_synonym pnts = "(real \<times> real) list"
type_synonym bbox = "int \<times> int \<times> int \<times> int"
type_synonym matrix = "real list list"

text \<open>A PIL font object: \<^verbatim>\<open>font.getsize(text)\<close> and \<^verbatim>\<open>font.getoffset(text)\<close>.\<close>

record font =
  getsize :: "pystr \<Rightarrow> int \<times> int"
  getoffset :: "pystr \<Rightarrow> int \<times> int"

record cvlib =
  resize_px :: "interpolation \<Rightarrow> raster \<Rightarrow> nat \<Rightarrow> nat \<Rightarrow> nat \<Rightarrow> nat \<Rightarrow> real"
  gauss_px :: "raster \<Rightarrow> int \<Rightarrow> int \<Rightarrow> nat \<Rightarrow> nat \<Rightarrow> real"
  box_px :: "raster \<Rightarrow> int \<Rightarrow> nat \<Rightarrow> nat \<Rightarrow> real"
  seamlessClone :: "raster \<Rightarrow> raster \<Rightarrow> raster \<Rightarrow> int \<times> int \<Rightarrow> nat \<Rightarrow> error + raster"
  pil_text :: "raster \<Rightarrow> int \<times> int \<Rightarrow> pystr \<Rightarrow> int \<Rightarrow> font \<Rightarrow> raster"
  truetype :: "string \<Rightarrow> int \<Rightarrow> font"

text \<open>
  \<^verbatim>\<open>cv2.resize(src, (w, h), interpolation=...)\<close>: the result has exactly \<open>h\<close> rows and
  \<open>w\<close> columns; an empty source or a size that is not positive is an error.
\<close>

definition cv_resize :: "cvlib \<Rightarrow> raster \<Rightarrow> int \<times> int \<Rightarrow> interpolation \<Rightarrow> error + raster" where
  "cv_resize lib src dsize interp =
     (if rows src = 0 \<or> cols src = 0 then Inl CvError
      else if fst dsize \<le> 0 \<or> snd dsize \<le> 0 then Inl CvError
      else Inr \<lparr>rows = nat (snd dsize), cols = nat (fst dsize),
                px = resize_px lib interp src (nat (snd dsize)) (nat (fst dsize))\<rparr>)"

text \<open>
  \<^verbatim>\<open>cv2.resize(src, None, fx=fx, fy=fy)\<close>: both factors must be positive, and the size
  is \<open>(cvRound(cols * fx), cvRound(rows * fy))\<close>, which must not be empty.
\<close>

definition cv_resize_scale :: "cvlib \<Rightarrow> raster \<Rightarrow> real \<Rightarrow> real \<Rightarrow> error + raster" where
  "cv_resize_scale lib src fx fy =
     (if rows src = 0 \<or> cols src = 0 then Inl CvError
      else if fx \<le> 0 \<or> fy \<le> 0 then Inl CvError
      else cv_resize lib src
             (np_around (real (cols src) * fx), np_around (real (rows src) * fy)) INTER_LINEAR)"

text \<open>
  \<^verbatim>\<open>cv2.GaussianBlur(img, (k, k), sigma)\<close> and \<^verbatim>\<open>cv2.blur(img, (k, k))\<close> keep the
  shape. The Gaussian kernel size must be positive and odd.
\<close>

definition GaussianBlur :: "cvlib \<Rightarrow> raster \<Rightarrow> int \<Rightarrow> int \<Rightarrow> error + raster" where
  "GaussianBlur lib img ksize sigma =
     (if rows img = 0 \<or> cols img = 0 then Inl CvError
      else if ksize \<le> 0 \<or> even ksize then Inl CvError
      else Inr (img\<lparr>px := gauss_px lib img ksize sigma\<rparr>))"

definition cv_blur :: "cvlib \<Rightarrow> raster \<Rightarrow> int \<Rightarrow> error + raster" where
  "cv_blur lib img ksize =
     (if rows img = 0 \<or> cols img = 0 then Inl CvError
      else if ksize \<le> 0 then Inl CvError
      else Inr (img\<lparr>px := box_px lib img ksize\<rparr>))"

text \<open>
  \<^verbatim>\<open>cv2.boundingRect\<close> on float points: the floors of the extreme coordinates, and one
  more than their difference as width and height (the right and bottom sides are not
  inclusive). No point gives the empty rectangle.
\<close>

definition boundingRect :: "pnts \<Rightarrow> bbox" where
  "boundingRect ps =
     (case ps of
        [] \<Rightarrow> (0, 0, 0, 0)
      | p # qs \<Rightarrow>
          (let xmin = \<lfloor>fold min (map fst qs) (fst p)\<rfloor>;
               ymin = \<lfloor>fold min (map snd qs) (snd p)\<rfloor>;
               xmax = \<lfloor>fold max (map fst qs) (fst p)\<rfloor>;
               ymax = \<lfloor>fold max (map snd qs) (snd p)\<rfloor>
           in (xmin, ymin, xmax - xmin + 1, ymax - ymin + 1)))"

section \<open>The renderer object and its collaborators\<close>

text \<open>
  The configuration tree \<^verbatim>\<open>cfg\<close>: the items handed to \<^verbatim>\<open>apply\<close> are of a type \<open>'i\<close>
  that the renderer never looks into; the numeric leaves it reads are fields of their own.
\<close>

record 'i cfg =
  cfg_line :: 'i
  cfg_noise :: 'i
  cfg_blur :: 'i
  cfg_prydown :: 'i
  prydown_max_scale :: real
  cfg_reverse_color :: 'i
  cfg_random_space :: 'i
  random_space_min :: real
  random_space_max :: real
  cfg_seamless_clone :: 'i
  cfg_img_bg :: 'i
  font_size_min :: int
  font_size_max :: int
  perspective_max_x :: real
  perspective_max_y :: real
  perspective_max_z :: real

text \<open>
  \<^verbatim>\<open>math_utils.PerspectiveTransform\<close>: the object that \<^verbatim>\<open>apply_perspective_transform\<close>
  builds. \<^verbatim>\<open>transform_image(img, gpu)\<close> returns the warped raster, the 3x3 matrix
  \<^verbatim>\<open>M33\<close> and the warped corner points; \<^verbatim>\<open>transform_pnts(pnts, M33)\<close> maps points
  with a given matrix. Both live in \<^verbatim>\<open>libs/math_utils.py\<close>, outside the modelled file.
\<close>

record transformer =
  transform_image :: "raster \<Rightarrow> bool \<Rightarrow> raster \<times> matrix \<times> pnts"
  transform_pnts :: "pnts \<Rightarrow> matrix \<Rightarrow> pnts"

text \<open>
  The collaborators of the renderer that are not in \<^verbatim>\<open>renderer.py\<close>:
  \<^verbatim>\<open>libs.utils\<close> (\<^verbatim>\<open>apply\<close>, \<^verbatim>\<open>prob\<close>, \<^verbatim>\<open>draw_box\<close>, \<^verbatim>\<open>draw_bbox\<close>),
  \<^verbatim>\<open>libs.math_utils\<close>, the corpus, the liner and the noiser. \<^verbatim>\<open>gen_rand_bg\<close> is a
  method of the renderer; its pixel fill is not modelled and it stands here as a parameter.
\<close>

record 'i env =
  utils_apply :: "'i \<Rightarrow> rng \<Rightarrow> bool \<times> rng"
  utils_prob :: "real \<Rightarrow> rng \<Rightarrow> bool \<times> rng"
  draw_box :: "raster \<Rightarrow> pnts \<Rightarrow> int \<times> int \<times> int \<Rightarrow> raster"
  draw_bbox :: "raster \<Rightarrow> bbox \<Rightarrow> int \<times> int \<times> int \<Rightarrow> raster"
  cliped_rand_norm :: "real \<Rightarrow> real \<Rightarrow> rng \<Rightarrow> real \<times> rng"
  PerspectiveTransform :: "real \<Rightarrow> real \<Rightarrow> real \<Rightarrow> real \<Rightarrow> real \<Rightarrow> transformer"
  corpus_get_sample :: "rng \<Rightarrow> pystr \<times> rng"
  liner_apply :: "raster \<Rightarrow> pnts \<Rightarrow> int \<Rightarrow> rng \<Rightarrow> error + ((raster \<times> pnts) \<times> rng)"
  noiser_apply :: "raster \<Rightarrow> rng \<Rightarrow> error + (raster \<times> rng)"
  gen_rand_bg :: "int \<Rightarrow> int \<Rightarrow> rng \<Rightarrow> error + (raster \<times> rng)"

text \<open>The fields of \<^verbatim>\<open>self\<close> that the methods read.\<close>

record 'i renderer =
  fonts :: "string list"
  bgs :: "raster list"
  out_width :: int
  out_height :: int
  clip_max_chars :: bool
  max_chars :: int
  debug :: bool
  gpu :: bool
  strict :: bool
  cfg :: "'i cfg"
  font_chars :: "string \<rightharpoonup> nat set"

text \<open>
  \<^verbatim>\<open>Renderer.__init__\<close> (lines 18-37). \<^verbatim>\<open>get_fonts_chars\<close> is read only under
  \<^verbatim>\<open>strict\<close>; its result is the argument \<open>fc\<close>.
\<close>

definition Renderer_init ::
  "string list \<Rightarrow> raster list \<Rightarrow> 'i cfg \<Rightarrow> int \<Rightarrow> int \<Rightarrow> bool \<Rightarrow> bool \<Rightarrow> bool \<Rightarrow> bool \<Rightarrow>
   (string \<rightharpoonup> nat set) \<Rightarrow> 'i renderer" where
  "Renderer_init fnts bs c width height clip dbg gp strct fc =
     \<lparr>fonts = fnts, bgs = bs, out_width = width, out_height = height,
      clip_max_chars = clip, max_chars = \<lfloor>real_of_int width / 4\<rfloor> - 1,
      debug = dbg, gpu = gp, strict = strct, cfg = c,
      font_chars = (if strct then fc else Map.empty)\<rparr>"

section \<open>Crop and normalise\<close>

text \<open>
  \<^verbatim>\<open>random_xy_offset\<close> (lines 86-107): the left-top offset for putting a small
  rectangle into a large one; the y offset is drawn first.
\<close>

definition random_xy_offset ::
  "int \<Rightarrow> int \<Rightarrow> int \<Rightarrow> int \<Rightarrow> rng \<Rightarrow> error + ((int \<times> int) \<times> rng)" where
  "random_xy_offset src_height src_width dst_height dst_width r =
     (let y_max_offset = (if dst_height > src_height then dst_height - src_height else 0);
          x_max_offset = (if dst_width > src_width then dst_width - src_width else 0)
      in case (if y_max_offset \<noteq> 0 then randint 0 y_max_offset r else Inr (0, r)) of
           Inl e \<Rightarrow> Inl e
         | Inr (y_offset, r1) \<Rightarrow>
             (case (if x_max_offset \<noteq> 0 then randint 0 x_max_offset r1 else Inr (0, r1)) of
                Inl e \<Rightarrow> Inl e
              | Inr (x_offset, r2) \<Rightarrow> Inr ((x_offset, y_offset), r2)))"

text \<open>
  \<^verbatim>\<open>crop_img\<close>, line 126:
  \<^verbatim>\<open>dst_height = random.randint(self.out_height // 4 * 3, self.out_height)\<close>.
\<close>

definition crop_dst_height :: "int \<Rightarrow> rng \<Rightarrow> error + (int \<times> rng)" where
  "crop_dst_height out_h r = randint (out_h div 4 * 3) out_h r"

text \<open>
  \<^verbatim>\<open>crop_img\<close>, lines 117-148: the crop rectangle \<^verbatim>\<open>dst_bbox\<close> on the input image.
  A division by zero raises ZeroDivisionError (\<^verbatim>\<open>bbox_height / dst_height\<close>,
  \<^verbatim>\<open>bbox_width / self.out_width\<close>, and the divisions by \<^verbatim>\<open>scale\<close>).
\<close>

definition crop_dst_bbox :: "int \<Rightarrow> int \<Rightarrow> pnts \<Rightarrow> rng \<Rightarrow> error + (bbox \<times> rng)" where
  "crop_dst_bbox out_w out_h text_box_pnts_transformed r =
     (case boundingRect text_box_pnts_transformed of
        (bbox0, bbox1, bbox_width, bbox_height) \<Rightarrow>
     (case crop_dst_height out_h r of
        Inl e \<Rightarrow> Inl e
      | Inr (dst_height, r1) \<Rightarrow>
          if dst_height = 0 \<or> out_w = 0 then Inl ZeroDivisionError
          else
            (let scale = max (real_of_int bbox_height / real_of_int dst_height)
                             (real_of_int bbox_width / real_of_int out_w)
             in if scale = 0 then Inl ZeroDivisionError
                else
                  (let s_bbox_width = \<lceil>real_of_int bbox_width / scale\<rceil>;
                       s_bbox_height = \<lceil>real_of_int bbox_height / scale\<rceil>;
                       s_bbox0 = np_around (real_of_int bbox0 / scale);
                       s_bbox1 = np_around (real_of_int bbox1 / scale)
                   in case random_xy_offset s_bbox_height s_bbox_width out_h out_w r1 of
                        Inl e \<Rightarrow> Inl e
                      | Inr ((x_offset, y_offset), r2) \<Rightarrow>
                          Inr ((np_around (real_of_int (s_bbox0 - x_offset) * scale),
                                np_around (real_of_int (s_bbox1 - y_offset) * scale),
                                np_around (real_of_int out_w * scale),
                                np_around (real_of_int out_h * scale)), r2)))))"

text \<open>
  \<^verbatim>\<open>crop_img\<close> (lines 109-155): the crop rectangle, then the slice
  \<^verbatim>\<open>img[y:y+h, x:x+w]\<close>, then \<^verbatim>\<open>cv2.resize\<close> to \<^verbatim>\<open>(out_width, out_height)\<close>.
\<close>

definition crop_img ::
  "cvlib \<Rightarrow> 'i renderer \<Rightarrow> raster \<Rightarrow> pnts \<Rightarrow> rng \<Rightarrow> error + ((raster \<times> bbox) \<times> rng)" where
  "crop_img lib self img text_box_pnts_transformed r =
     (case crop_dst_bbox (out_width self) (out_height self) text_box_pnts_transformed r of
        Inl e \<Rightarrow> Inl e
      | Inr ((x, y, w, h), r') \<Rightarrow>
          (case cv_resize lib (slice2 img y (y + h) x (x + w))
                  (out_width self, out_height self) INTER_CUBIC of
             Inl e \<Rightarrow> Inl e
           | Inr dst \<Rightarrow> Inr ((dst, (x, y, w, h)), r')))"

section \<open>Blur and pseudo-downsample\<close>

text \<open>
  \<^verbatim>\<open>apply_gauss_blur\<close> (lines 416-426); \<^verbatim>\<open>ks=None\<close> stands for \<^verbatim>\<open>[7, 9, 11, 13]\<close>.
\<close>

definition apply_gauss_blur ::
  "cvlib \<Rightarrow> raster \<Rightarrow> int list option \<Rightarrow> rng \<Rightarrow> error + (raster \<times> rng)" where
  "apply_gauss_blur lib img ks r =
     (case choice (case ks of None \<Rightarrow> [7, 9, 11, 13] | Some l \<Rightarrow> l) r of
        Inl e \<Rightarrow> Inl e
      | Inr (ksize, r1) \<Rightarrow>
          (case (if ksize \<le> 3 then choice [0, 1, 2, 3, 4, 5, 6, 7] r1 else Inr (0, r1)) of
             Inl e \<Rightarrow> Inl e
           | Inr (sigma, r2) \<Rightarrow>
               (case GaussianBlur lib img ksize sigma of
                  Inl e \<Rightarrow> Inl e
                | Inr out \<Rightarrow> Inr (out, r2))))"

text \<open>\<^verbatim>\<open>apply_norm_blur\<close> (lines 428-434); \<^verbatim>\<open>ks=None\<close> stands for \<^verbatim>\<open>[2, 3]\<close>.\<close>

definition apply_norm_blur ::
  "cvlib \<Rightarrow> raster \<Rightarrow> int list option \<Rightarrow> rng \<Rightarrow> error + (raster \<times> rng)" where
  "apply_norm_blur lib img ks r =
     (case choice (case ks of None \<Rightarrow> [2, 3] | Some l \<Rightarrow> l) r of
        Inl e \<Rightarrow> Inl e
      | Inr (ksize, r1) \<Rightarrow>
          (case cv_blur lib img ksize of
             Inl e \<Rightarrow> Inl e
           | Inr out \<Rightarrow> Inr (out, r1)))"

text \<open>\<^verbatim>\<open>apply_blur_on_output\<close> (lines 410-414).\<close>

definition apply_blur_on_output ::
  "cvlib \<Rightarrow> 'i env \<Rightarrow> raster \<Rightarrow> rng \<Rightarrow> error + (raster \<times> rng)" where
  "apply_blur_on_output lib en img r =
     (case utils_prob en (1 / 2) r of
        (p, r1) \<Rightarrow>
          if p then apply_gauss_blur lib img (Some [3, 5]) r1
          else apply_norm_blur lib img None r1)"

text \<open>\<^verbatim>\<open>apply_prydown\<close> (lines 436-445).\<close>

definition apply_prydown ::
  "cvlib \<Rightarrow> 'i renderer \<Rightarrow> raster \<Rightarrow> rng \<Rightarrow> error + (raster \<times> rng)" where
  "apply_prydown lib self img r =
     (case uniform 1 (prydown_max_scale (cfg self)) r of
        (scale, r1) \<Rightarrow>
          if scale = 0 then Inl ZeroDivisionError
          else
            (case cv_resize lib img
                    (py_int (real (cols img) / scale), py_int (real (rows img) / scale))
                    INTER_AREA of
               Inl e \<Rightarrow> Inl e
             | Inr out \<Rightarrow>
                 (case cv_resize lib out (int (cols img), int (rows img)) INTER_AREA of
                    Inl e \<Rightarrow> Inl e
                  | Inr out2 \<Rightarrow> Inr (out2, r1))))"

section \<open>Background from a stock image\<close>

text \<open>
  \<^verbatim>\<open>gen_bg_from_image\<close>, line 322:
  \<^verbatim>\<open>scale = max(width / bg.shape[1], height / bg.shape[0])\<close>.
\<close>

definition bg_scale :: "int \<Rightarrow> int \<Rightarrow> raster \<Rightarrow> real" where
  "bg_scale width height bg =
     max (real_of_int width / real (cols bg)) (real_of_int height / real (rows bg))"

text \<open>
  \<^verbatim>\<open>gen_bg_from_image\<close> (lines 314-338). The assertion fails on \<open>width \<le> height\<close>;
  \<^verbatim>\<open>int(np.mean(out))\<close> raises ValueError on an empty array (the mean is nan), and
  \<^verbatim>\<open>255 / bg_mean\<close> raises ZeroDivisionError when the mean is below 1.
\<close>

definition gen_bg_from_image ::
  "cvlib \<Rightarrow> 'i renderer \<Rightarrow> int \<Rightarrow> int \<Rightarrow> rng \<Rightarrow> error + (raster \<times> rng)" where
  "gen_bg_from_image lib self width height r =
     (if \<not> width > height then Inl AssertionError
      else
        (case choice (bgs self) r of
           Inl e \<Rightarrow> Inl e
         | Inr (bg, r1) \<Rightarrow>
             if cols bg = 0 \<or> rows bg = 0 then Inl ZeroDivisionError
             else
               (case cv_resize_scale lib bg (bg_scale width height bg)
                       (bg_scale width height bg) of
                  Inl e \<Rightarrow> Inl e
                | Inr out \<Rightarrow>
                    (case random_xy_offset height width (int (rows out)) (int (cols out)) r1 of
                       Inl e \<Rightarrow> Inl e
                     | Inr ((x_offset, y_offset), r2) \<Rightarrow>
                         (case apply_gauss_blur lib
                                 (slice2 out y_offset (y_offset + height)
                                    x_offset (x_offset + width))
                                 (Some [7, 11, 13, 15, 17]) r2 of
                            Inl e \<Rightarrow> Inl e
                          | Inr (out2, r3) \<Rightarrow>
                              if rows out2 * cols out2 = 0 then Inl ValueError
                              else
                                (let bg_mean = py_int (np_mean out2)
                                 in if bg_mean = 0 then Inl ZeroDivisionError
                                    else
                                      (let alpha = 255 / real_of_int bg_mean
                                       in case np_randint (bg_mean div 2) bg_mean r3 of
                                            Inl e \<Rightarrow> Inl e
                                          | Inr (beta, r4) \<Rightarrow>
                                              Inr (np_uint8 (np_clip
                                                     (out2\<lparr>px := \<lambda>i j. alpha * px out2 i j
                                                                     + real_of_int beta\<rparr>)
                                                     0 255), r4))))))))"

text \<open>\<^verbatim>\<open>gen_bg\<close> (lines 294-299).\<close>

definition gen_bg ::
  "cvlib \<Rightarrow> 'i env \<Rightarrow> 'i renderer \<Rightarrow> int \<Rightarrow> int \<Rightarrow> rng \<Rightarrow> error + (raster \<times> rng)" where
  "gen_bg lib en self width height r =
     (case utils_apply en (cfg_img_bg (cfg self)) r of
        (b, r1) \<Rightarrow>
          if b then gen_bg_from_image lib self width height r1
          else gen_rand_bg en width height r1)"

section \<open>Font and word selection\<close>

text \<open>\<^verbatim>\<open>get_word_size\<close> (lines 370-381): the size with the glyph offset removed.\<close>

definition get_word_size :: "font \<Rightarrow> pystr \<Rightarrow> int \<times> int" where
  "get_word_size fnt word =
     (let offset = getoffset fnt word; size = getsize fnt word
      in (fst size - fst offset, snd size - snd offset))"

text \<open>
  The strict check of \<^verbatim>\<open>pick_font\<close> (lines 356-362): a space is skipped, the first
  character outside the font's set raises. The result is whether the loop runs through.
\<close>

fun chars_supported :: "nat set \<Rightarrow> pystr \<Rightarrow> bool" where
  "chars_supported supported_chars [] = True"
| "chars_supported supported_chars (c # cs) =
     (if c = 32 then chars_supported supported_chars cs
      else if c \<notin> supported_chars then False
      else chars_supported supported_chars cs)"

text \<open>
  The body of \<^verbatim>\<open>pick_font\<close> (lines 347-368), one attempt. The tape is returned also
  when the attempt raises, since the retry goes on from there.
\<close>

definition pick_font_attempt ::
  "cvlib \<Rightarrow> 'i env \<Rightarrow> 'i renderer \<Rightarrow> rng \<Rightarrow> (error + (pystr \<times> font \<times> (int \<times> int))) \<times> rng" where
  "pick_font_attempt lib en self r =
     (case corpus_get_sample en r of
        (sample, r1) \<Rightarrow>
          (let word = (if clip_max_chars self \<and> int (length sample) > max_chars self
                       then py_take (max_chars self) sample else sample)
           in case choice (fonts self) r1 of
                Inl e \<Rightarrow> (Inl e, r1)
              | Inr (font_path, r2) \<Rightarrow>
                  if strict self \<and> font_chars self font_path = None then (Inl KeyError, r2)
                  else if strict self \<and>
                          \<not> chars_supported (case font_chars self font_path of
                                               None \<Rightarrow> {} | Some cs \<Rightarrow> cs) word
                  then (Inl PickFontException, r2)
                  else
                    (case randint (font_size_min (cfg self)) (font_size_max (cfg self)) r2 of
                       Inl e \<Rightarrow> (Inl e, r2)
                     | Inr (font_size, r3) \<Rightarrow>
                         (let fnt = truetype lib font_path font_size
                          in (Inr (word, fnt, get_word_size fnt word), r3)))))"

text \<open>
  \<^verbatim>\<open>pick_font\<close> under \<^verbatim>\<open>@retry\<close> (tenacity, no stop condition): an attempt that
  raises is repeated, for ever if need be. \<open>None\<close> is the run that never returns.
\<close>

partial_function (option) pick_font ::
  "cvlib \<Rightarrow> 'i env \<Rightarrow> 'i renderer \<Rightarrow> rng \<Rightarrow> ((pystr \<times> font \<times> (int \<times> int)) \<times> rng) option" where
  "pick_font lib en self r =
     (case pick_font_attempt lib en self r of
        (Inr res, r') \<Rightarrow> Some (res, r')
      | (Inl e, r') \<Rightarrow> pick_font lib en self r')"

section \<open>Text compositing\<close>

text \<open>\<^verbatim>\<open>get_word_color\<close> (lines 157-171).\<close>

definition get_word_color ::
  "raster \<Rightarrow> int \<Rightarrow> int \<Rightarrow> int \<Rightarrow> int \<Rightarrow> rng \<Rightarrow> error + (int \<times> rng)" where
  "get_word_color bg text_x text_y word_height word_width r =
     (let offset = 10;
          ymin = text_y - offset; ymax = text_y + word_height + offset;
          xmin = text_x - offset; xmax = text_x + word_width + offset;
          word_roi_bg = slice2 bg ymin ymax xmin xmax
      in if rows word_roi_bg * cols word_roi_bg = 0 then Inl ValueError
         else randint 0 (py_int (np_mean word_roi_bg * (2 / 3))) r)"

text \<open>
  \<^verbatim>\<open>draw_text_with_random_space\<close>, the first loop (lines 263-276): the running
  \<^verbatim>\<open>width\<close>, \<^verbatim>\<open>height\<close>, \<^verbatim>\<open>chars_size\<close> and \<^verbatim>\<open>y_offset\<close>.
\<close>

fun measure_chars ::
  "font \<Rightarrow> pystr \<Rightarrow> int \<times> int \<times> (int \<times> int) list \<times> int \<Rightarrow> int \<times> int \<times> (int \<times> int) list \<times> int" where
  "measure_chars fnt [] acc = acc"
| "measure_chars fnt (c # cs) (width, height, chars_size, y_offset) =
     (let size = getsize fnt [c]; c_offset = getoffset fnt [c]
      in measure_chars fnt cs
           (width + fst size,
            (if snd size > height then snd size else height),
            chars_size @ [size],
            (if snd c_offset < y_offset then snd c_offset else y_offset)))"

text \<open>
  The second loop (lines 287-290): each character is drawn at \<open>(c_x, c_y - y_offset)\<close>
  and \<open>c_x\<close> advances by the character's width and the gap.
\<close>

fun draw_chars ::
  "cvlib \<Rightarrow> font \<Rightarrow> int \<Rightarrow> (int \<times> int) list \<Rightarrow> int \<Rightarrow> int \<Rightarrow> int \<Rightarrow> raster \<Rightarrow> nat \<Rightarrow> int \<Rightarrow> pystr \<Rightarrow> raster" where
  "draw_chars lib fnt word_color chars_size char_space_width c_y y_offset img i c_x [] = img"
| "draw_chars lib fnt word_color chars_size char_space_width c_y y_offset img i c_x (c # cs) =
     draw_chars lib fnt word_color chars_size char_space_width c_y y_offset
       (pil_text lib img (c_x, c_y - y_offset) [c] word_color fnt)
       (Suc i) (c_x + (fst (chars_size ! i) + char_space_width)) cs"

text \<open>
  \<^verbatim>\<open>draw_text_with_random_space\<close> (lines 257-292). The drawing surface \<^verbatim>\<open>draw\<close> is
  the raster it writes to; the result is \<open>(text_x, text_y, width, height)\<close>, the raster
  and the tape.
\<close>

definition draw_text_with_random_space ::
  "cvlib \<Rightarrow> 'i renderer \<Rightarrow> raster \<Rightarrow> font \<Rightarrow> pystr \<Rightarrow> int \<Rightarrow> int \<Rightarrow> int \<Rightarrow> rng \<Rightarrow>
   (int \<times> int \<times> int \<times> int) \<times> raster \<times> rng" where
  "draw_text_with_random_space lib self draw fnt word word_color bg_width bg_height r =
     (case measure_chars fnt word (0, 0, [], 10 ^ 5) of
        (width0, height, chars_size, y_offset) \<Rightarrow>
     (case uniform (random_space_min (cfg self)) (random_space_max (cfg self)) r of
        (u, r1) \<Rightarrow>
          (let char_space_width = py_int (real_of_int height * u);
               width = width0 + char_space_width * (int (length word) - 1);
               text_x = py_int (real_of_int (bg_width - width) / 2);
               text_y = py_int (real_of_int (bg_height - height) / 2)
           in ((text_x, text_y, width, height),
               draw_chars lib fnt word_color chars_size char_space_width text_y y_offset
                 draw 0 text_x word,
               r1))))"

text \<open>
  \<^verbatim>\<open>draw_text_seamless\<close> (lines 221-255). \<^verbatim>\<open>np.ones\<close> raises ValueError on a negative
  dimension. The gray/BGR conversions keep the content of a gray image.
\<close>

definition draw_text_seamless ::
  "cvlib \<Rightarrow> font \<Rightarrow> raster \<Rightarrow> pystr \<Rightarrow> int \<Rightarrow> int \<Rightarrow> int \<Rightarrow> int \<times> int \<Rightarrow> rng \<Rightarrow>
   error + (raster \<times> rng)" where
  "draw_text_seamless lib fnt bg word word_color word_height word_width offset r =
     (let seamless_offset = 6
      in if word_height + seamless_offset < 0 \<or> word_width + seamless_offset < 0
         then Inl ValueError
         else
           (let white_bg = \<lparr>rows = nat (word_height + seamless_offset),
                            cols = nat (word_width + seamless_offset), px = \<lambda>i j. 255\<rparr>;
                text_img = pil_text lib (np_uint8 white_bg)
                             (0 + seamless_offset div 2, 0 - snd offset + seamless_offset div 2)
                             word word_color fnt;
                text_mask = text_img\<lparr>px := \<lambda>i j. 255\<rparr>;
                center = (int (cols bg) div 2, int (rows bg) div 2)
            in case choice [1, 2, 3] r of
                 Inl e \<Rightarrow> Inl e
               | Inr (flag, r1) \<Rightarrow>
                   (case seamlessClone lib text_img bg text_mask center flag of
                      Inl e \<Rightarrow> Inl e
                    | Inr mixed_clone \<Rightarrow> Inr (mixed_clone, r1))))"

text \<open>\<^verbatim>\<open>draw_text_on_bg\<close> (lines 173-219).\<close>

definition draw_text_on_bg ::
  "cvlib \<Rightarrow> 'i env \<Rightarrow> 'i renderer \<Rightarrow> pystr \<Rightarrow> font \<Rightarrow> raster \<Rightarrow> rng \<Rightarrow>
   error + ((raster \<times> pnts \<times> int) \<times> rng)" where
  "draw_text_on_bg lib en self word fnt bg r =
     (let bg_height = int (rows bg); bg_width = int (cols bg);
          word_size = get_word_size fnt word;
          word_height0 = snd word_size; word_width0 = fst word_size;
          offset = getoffset fnt word;
          pil_img = np_uint8 bg;
          text_x0 = py_int (real_of_int (bg_width - word_width0) / 2);
          text_y0 = py_int (real_of_int (bg_height - word_height0) / 2)
      in case get_word_color bg text_x0 text_y0 word_height0 word_width0 r of
           Inl e \<Rightarrow> Inl e
         | Inr (word_color, r1) \<Rightarrow>
             (case utils_apply en (cfg_random_space (cfg self)) r1 of
                (rs, r2) \<Rightarrow>
             (case (if rs
                    then (case draw_text_with_random_space lib self pil_img fnt word word_color
                                 bg_width bg_height r2 of
                            (geom, np_img, r3) \<Rightarrow> Inr ((geom, np_img), r3))
                    else (case utils_apply en (cfg_seamless_clone (cfg self)) r2 of
                            (sc, r3) \<Rightarrow>
                              if sc
                              then (case draw_text_seamless lib fnt bg word word_color
                                           word_height0 word_width0 offset r3 of
                                      Inl e \<Rightarrow> Inl e
                                    | Inr (np_img, r4) \<Rightarrow>
                                        Inr (((text_x0, text_y0, word_width0, word_height0),
                                              np_img), r4))
                              else Inr (((text_x0, text_y0, word_width0, word_height0),
                                         pil_text lib pil_img
                                           (text_x0 - fst offset, text_y0 - snd offset)
                                           word word_color fnt), r3))) of
                Inl e \<Rightarrow> Inl e
              | Inr (((text_x, text_y, word_width, word_height), np_img), r5) \<Rightarrow>
                  Inr ((np_img,
                        [(real_of_int text_x, real_of_int text_y),
                         (real_of_int (text_x + word_width), real_of_int text_y),
                         (real_of_int (text_x + word_width), real_of_int (text_y + word_height)),
                         (real_of_int text_x, real_of_int (text_y + word_height))],
                        word_color), r5))))"

section \<open>Perspective\<close>

text \<open>
  \<^verbatim>\<open>apply_perspective_transform\<close>, lines 397-403: the three clipped normal draws and
  the transformer object built from them with \<^verbatim>\<open>scale=1.0, fovy=50\<close>.
\<close>

definition perspective_transformer ::
  "'i env \<Rightarrow> real \<Rightarrow> real \<Rightarrow> real \<Rightarrow> rng \<Rightarrow> transformer \<times> rng" where
  "perspective_transformer en max_x max_y max_z r =
     (case cliped_rand_norm en 0 max_x r of
        (x, r1) \<Rightarrow>
     (case cliped_rand_norm en 0 max_y r1 of
        (y, r2) \<Rightarrow>
     (case cliped_rand_norm en 0 max_z r2 of
        (z, r3) \<Rightarrow> (PerspectiveTransform en x y z 1 50, r3))))"

text \<open>\<^verbatim>\<open>apply_perspective_transform\<close> (lines 383-408).\<close>

definition apply_perspective_transform ::
  "'i env \<Rightarrow> raster \<Rightarrow> pnts \<Rightarrow> real \<Rightarrow> real \<Rightarrow> real \<Rightarrow> bool \<Rightarrow> rng \<Rightarrow>
   (raster \<times> pnts \<times> pnts) \<times> rng" where
  "apply_perspective_transform en img text_box_pnts max_x max_y max_z gp r =
     (case perspective_transformer en max_x max_y max_z r of
        (tr, r') \<Rightarrow>
     (case transform_image tr img gp of
        (dst_img, M33, dst_img_pnts) \<Rightarrow>
          (let dst_text_pnts = transform_pnts tr text_box_pnts M33
           in ((dst_img, dst_img_pnts, dst_text_pnts), r'))))"

text \<open>
  Modelled from the spec: the geometry service behind
  \<^verbatim>\<open>math_utils.PerspectiveTransform\<close>, whose code is missing from the sources. Its
  three operations are those of the specification's external interfaces: \<^verbatim>\<open>build_projection(angle_x, angle_y, angle_z, scale, field_of_view)\<close>
  gives the matrix, \<^verbatim>\<open>warp_image(raster, matrix, use_accelerated_path)\<close> gives the warped
  raster and the warped corner quadrilateral, \<^verbatim>\<open>warp_points(point_quad, matrix)\<close> maps
  a quadrilateral.
\<close>

record geometry =
  build_projection :: "real \<Rightarrow> real \<Rightarrow> real \<Rightarrow> real \<Rightarrow> real \<Rightarrow> matrix"
  warp_image :: "raster \<Rightarrow> matrix \<Rightarrow> bool \<Rightarrow> raster \<times> pnts"
  warp_points :: "pnts \<Rightarrow> matrix \<Rightarrow> pnts"

text \<open>
  Modelled from the spec: the transformer object of \<^verbatim>\<open>libs/math_utils.py\<close>, which is
  missing from the sources. The specification has it build a single projection matrix from
  the three angles, the scale and the field of view, warp the raster and its corner
  quadrilateral with that matrix and hand the matrix back (\<^verbatim>\<open>transform_image\<close>), and
  map a point quadrilateral with a matrix it is given (\<^verbatim>\<open>transform_pnts\<close>).
\<close>

definition geometry_transformer ::
  "geometry \<Rightarrow> real \<Rightarrow> real \<Rightarrow> real \<Rightarrow> real \<Rightarrow> real \<Rightarrow> transformer" where
  "geometry_transformer g x y z scale fovy =
     \<lparr>transform_image = \<lambda>img gp.
        (let M = build_projection g x y z scale fovy
         in (fst (warp_image g img M gp), M, snd (warp_image g img M gp))),
      transform_pnts = \<lambda>ps M. warp_points g ps M\<rparr>"

section \<open>Color inversion\<close>

text \<open>
  \<^verbatim>\<open>reverse_img\<close> (lines 447-449):
  \<^verbatim>\<open>offset = np.random.randint(-10, 10); return 255 + offset - word_img\<close>.
\<close>

definition reverse_img :: "raster \<Rightarrow> rng \<Rightarrow> error + (raster \<times> rng)" where
  "reverse_img word_img r =
     (case np_randint (- 10) 10 r of
        Inl e \<Rightarrow> Inl e
      | Inr (offset, r') \<Rightarrow>
          Inr (word_img\<lparr>px := \<lambda>i j. 255 + of_int offset - px word_img i j\<rparr>, r'))"

section \<open>The pipeline\<close>

text \<open>
  \<^verbatim>\<open>gen_img\<close>, lines 66-68: the optional noise on the value-clipped raster.
\<close>

definition gen_img_noise ::
  "'i env \<Rightarrow> 'i renderer \<Rightarrow> raster \<Rightarrow> rng \<Rightarrow> error + (raster \<times> rng)" where
  "gen_img_noise en self word_img r =
     (case utils_apply en (cfg_noise (cfg self)) r of
        (n, r1) \<Rightarrow>
          if n then noiser_apply en (np_clip word_img 0 255) r1
          else Inr (word_img, r1))"

text \<open>
  \<^verbatim>\<open>gen_img\<close>, lines 70-77: the flag \<^verbatim>\<open>blured\<close>, the blur, and the pseudo-downsample
  under \<^verbatim>\<open>if not blured\<close>. \<^verbatim>\<open>apply(self.cfg.prydown)\<close> is evaluated only there.
\<close>

definition gen_img_blur ::
  "cvlib \<Rightarrow> 'i env \<Rightarrow> 'i renderer \<Rightarrow> raster \<Rightarrow> rng \<Rightarrow> error + (raster \<times> rng)" where
  "gen_img_blur lib en self word_img r =
     (case utils_apply en (cfg_blur (cfg self)) r of
        (b, r1) \<Rightarrow>
          (case (if b
                 then (case apply_blur_on_output lib en word_img r1 of
                         Inl e \<Rightarrow> Inl e
                       | Inr (img1, r2) \<Rightarrow> Inr ((True, img1), r2))
                 else Inr ((False, word_img), r1)) of
             Inl e \<Rightarrow> Inl e
           | Inr ((blured, img1), r2) \<Rightarrow>
               if \<not> blured
               then (case utils_apply en (cfg_prydown (cfg self)) r2 of
                       (p, r3) \<Rightarrow>
                         if p then apply_prydown lib self img1 r3 else Inr (img1, r3))
               else Inr (img1, r2)))"

text \<open>
  \<^verbatim>\<open>gen_img\<close>, lines 66-84: noise, blur or pseudo-downsample, the final clip, the
  optional color inversion, and the returned pair of the raster and the word.
\<close>

definition gen_img_effects ::
  "cvlib \<Rightarrow> 'i env \<Rightarrow> 'i renderer \<Rightarrow> pystr \<Rightarrow> raster \<Rightarrow> rng \<Rightarrow>
   error + ((raster \<times> pystr) \<times> rng)" where
  "gen_img_effects lib en self word word_img r =
     (case gen_img_noise en self word_img r of
        Inl e \<Rightarrow> Inl e
      | Inr (img1, r1) \<Rightarrow>
          (case gen_img_blur lib en self img1 r1 of
             Inl e \<Rightarrow> Inl e
           | Inr (img2, r2) \<Rightarrow>
               (case utils_apply en (cfg_reverse_color (cfg self)) r2 of
                  (rv, r3) \<Rightarrow>
                    (case (if rv then reverse_img (np_clip img2 0 255) r3
                           else Inr (np_clip img2 0 255, r3)) of
                       Inl e \<Rightarrow> Inl e
                     | Inr (img3, r4) \<Rightarrow> Inr ((img3, word), r4)))))"

text \<open>
  \<^verbatim>\<open>gen_img\<close>, lines 44-64: background, text, optional line, perspective, and the
  crop (or, in debug mode, the overlays in place of the crop).
\<close>

definition gen_img_compose ::
  "cvlib \<Rightarrow> 'i env \<Rightarrow> 'i renderer \<Rightarrow> pystr \<Rightarrow> font \<Rightarrow> int \<times> int \<Rightarrow> rng \<Rightarrow>
   error + (raster \<times> rng)" where
  "gen_img_compose lib en self word fnt word_size r =
     (case gen_bg lib en self (fst word_size * 8) (snd word_size * 8) r of
        Inl e \<Rightarrow> Inl e
      | Inr (bg, r1) \<Rightarrow>
     (case draw_text_on_bg lib en self word fnt bg r1 of
        Inl e \<Rightarrow> Inl e
      | Inr ((word_img, text_box_pnts, word_color), r2) \<Rightarrow>
     (case utils_apply en (cfg_line (cfg self)) r2 of
        (lined, r3) \<Rightarrow>
     (case (if lined then liner_apply en word_img text_box_pnts word_color r3
            else Inr ((word_img, text_box_pnts), r3)) of
        Inl e \<Rightarrow> Inl e
      | Inr ((word_img1, text_box_pnts1), r4) \<Rightarrow>
     (case apply_perspective_transform en word_img1 text_box_pnts1
             (perspective_max_x (cfg self)) (perspective_max_y (cfg self))
             (perspective_max_z (cfg self)) (gpu self) r4 of
        ((word_img2, img_pnts_transformed, text_box_pnts_transformed), r5) \<Rightarrow>
          if debug self
          then
            (let boxed = draw_box en (draw_box en word_img2 img_pnts_transformed (0, 255, 0))
                           text_box_pnts_transformed (0, 0, 255)
             in case crop_img lib self boxed text_box_pnts_transformed r5 of
                  Inl e \<Rightarrow> Inl e
                | Inr ((dst, crop_bbox), r6) \<Rightarrow>
                    Inr (draw_bbox en boxed crop_bbox (255, 0, 0), r6))
          else
            (case crop_img lib self word_img2 text_box_pnts_transformed r5 of
               Inl e \<Rightarrow> Inl e
             | Inr ((dst, crop_bbox), r6) \<Rightarrow> Inr (dst, r6)))))))"

text \<open>
  \<^verbatim>\<open>gen_img\<close> (lines 39-84). \<open>None\<close> is the run in which \<^verbatim>\<open>pick_font\<close> retries for
  ever; \<open>Some (Inl e)\<close> is an exception that leaves \<^verbatim>\<open>gen_img\<close>.
\<close>

definition gen_img ::
  "cvlib \<Rightarrow> 'i env \<Rightarrow> 'i renderer \<Rightarrow> rng \<Rightarrow> (error + ((raster \<times> pystr) \<times> rng)) option" where
  "gen_img lib en self r =
     (case pick_font lib en self r of
        None \<Rightarrow> None
      | Some ((word, fnt, word_size), r1) \<Rightarrow>
          Some (case gen_img_compose lib en self word fnt word_size r1 of
                  Inl e \<Rightarrow> Inl e
                | Inr (word_img, r2) \<Rightarrow> gen_img_effects lib en self word word_img r2))"

section \<open>Sample objects\<close>

text \<open>
  Concrete collaborators on which the properties below are evaluated: a monospaced font
  without glyph offset, library kernels that keep the pixels, the identity projection, and
  toggles that are plain booleans.
\<close>

definition mono_font :: "int \<Rightarrow> int \<Rightarrow> font" where
  "mono_font w h = \<lparr>getsize = \<lambda>t. (w * int (length t), h), getoffset = \<lambda>t. (0, 0)\<rparr>"

definition plain_lib :: cvlib where
  "plain_lib =
     \<lparr>resize_px = \<lambda>interp src h w i j. px src 0 0,
      gauss_px = \<lambda>img ksize sigma. px img,
      box_px = \<lambda>img ksize. px img,
      seamlessClone = \<lambda>src dst mask center flag. Inr dst,
      pil_text = \<lambda>img pos t color fnt. img,
      truetype = \<lambda>path size. mono_font 10 20\<rparr>"

definition plain_transformer :: transformer where
  "plain_transformer =
     \<lparr>transform_image = \<lambda>img gp.
        (img, [[1, 0, 0], [0, 1, 0], [0, 0, 1]],
         [(0, 0), (real (cols img), 0), (real (cols img), real (rows img)), (0, real (rows img))]),
      transform_pnts = \<lambda>ps M. ps\<rparr>"

definition plain_env :: "pystr \<Rightarrow> bool env" where
  "plain_env sample =
     \<lparr>utils_apply = \<lambda>item r. (item, r),
      utils_prob = \<lambda>p r. (True, r),
      draw_box = \<lambda>img ps color. img,
      draw_bbox = \<lambda>img bb color. img,
      cliped_rand_norm = \<lambda>mu sigma r. (0, r),
      PerspectiveTransform = \<lambda>x y z s fovy. plain_transformer,
      corpus_get_sample = \<lambda>r. (sample, r),
      liner_apply = \<lambda>img ps color r. Inr ((img, ps), r),
      noiser_apply = \<lambda>img r. Inr (img, r),
      gen_rand_bg = \<lambda>w h r. Inr (\<lparr>rows = nat h, cols = nat w, px = \<lambda>i j. 240\<rparr>, r)\<rparr>"

definition plain_cfg :: "bool \<Rightarrow> bool \<Rightarrow> bool cfg" where
  "plain_cfg b p =
     \<lparr>cfg_line = False, cfg_noise = False, cfg_blur = b, cfg_prydown = p,
      prydown_max_scale = 2, cfg_reverse_color = False, cfg_random_space = False,
      random_space_min = 7 / 16, random_space_max = 7 / 16, cfg_seamless_clone = False,
      cfg_img_bg = False, font_size_min = 20, font_size_max = 20,
      perspective_max_x = 0, perspective_max_y = 0, perspective_max_z = 0\<rparr>"

definition plain_renderer ::
  "bool \<Rightarrow> bool \<Rightarrow> bool \<Rightarrow> int \<Rightarrow> int \<Rightarrow> raster list \<Rightarrow> bool renderer" where
  "plain_renderer b p clip width height bs =
     Renderer_init [''font.ttf''] bs (plain_cfg b p) width height clip False False False Map.empty"

definition stock :: raster where
  "stock = \<lparr>rows = 512, cols = 512, px = \<lambda>i j. 128\<rparr>"

text \<open>
  A geometry whose matrix matters: the projection is the translation by the first two
  angles, and the clipped normal draw returns its bound.
\<close>

definition shift_points :: "pnts \<Rightarrow> matrix \<Rightarrow> pnts" where
  "shift_points ps M = map (\<lambda>p. (fst p + M ! 0 ! 2, snd p + M ! 1 ! 2)) ps"

definition shift_geometry :: geometry where
  "shift_geometry =
     \<lparr>build_projection = \<lambda>x y z scale fovy. [[1, 0, x], [0, 1, y], [0, 0, 1]],
      warp_image = \<lambda>img M gp.
        (img, shift_points [(0, 0), (real (cols img), 0), (real (cols img), real (rows img)),
                            (0, real (rows img))] M),
      warp_points = shift_points\<rparr>"

definition shift_env :: "bool env" where
  "shift_env =
     (plain_env [])\<lparr>cliped_rand_norm := \<lambda>mu sigma r. (sigma, r),
                    PerspectiveTransform := geometry_transformer shift_geometry\<rparr>"

section \<open>Stock images that are not black\<close>

text \<open>
  \<^verbatim>\<open>gen_bg_from_image\<close> divides by the integer mean of the blurred crop. The mean is at
  least 1 when no pixel of the stock image is below 1 and the interpolation and the blur,
  which average pixels, keep that bound.
\<close>

definition bright :: "raster \<Rightarrow> bool" where
  "bright img = (\<forall>i<rows img. \<forall>j<cols img. 1 \<le> px img i j)"

definition keeps_bright :: "cvlib \<Rightarrow> bool" where
  "keeps_bright lib =
     (\<forall>src. 0 < rows src \<and> 0 < cols src \<and> bright src \<longrightarrow>
        (\<forall>interp h w. bright \<lparr>rows = h, cols = w, px = resize_px lib interp src h w\<rparr>)
        \<and> (\<forall>k s. bright (src\<lparr>px := gauss_px lib src k s\<rparr>)))"

section \<open>Properties\<close>

subsection \<open>Draws\<close>

lemma randint_Inr:
  "a \<le> b \<Longrightarrow> \<exists>d. randint a b r = Inr (d, stl r) \<and> a \<le> d \<and> d \<le> b"
proof -
  assume ab: "a \<le> b"
  have "int (shd r mod nat (b - a + 1)) < int (nat (b - a + 1))"
    using ab by (intro iffD2[OF of_nat_less_iff] mod_less_divisor) simp
  then have "int (shd r mod nat (b - a + 1)) \<le> b - a" using ab by simp
  then show ?thesis using ab by (simp add: randint_def)
qed

lemma randint_attains:
  assumes "a \<le> k" and "k \<le> b"
  shows "randint a b (sconst (nat (k - a))) = Inr (k, stl (sconst (nat (k - a))))"
proof -
  have "nat (k - a) < nat (b - a + 1)" using assms by linarith
  then have "nat (k - a) mod nat (b - a + 1) = nat (k - a)" by (rule mod_less)
  then show ?thesis using assms by (simp add: randint_def)
qed

subsection \<open>The placement height of the crop\<close>

lemma crop_dst_height_Inr:
  assumes "0 < out_h"
  shows "\<exists>d. crop_dst_height out_h r = Inr (d, stl r) \<and> out_h div 4 * 3 \<le> d \<and> d \<le> out_h"
proof -
  have le: "out_h div 4 * 3 \<le> out_h" using assms by linarith
  from randint_Inr[OF le, of r] show ?thesis by (simp add: crop_dst_height_def)
qed

lemma lower_end_exact:
  "real_of_int (out_h div 4 * 3) = 3 / 4 * real_of_int out_h - 3 / 4 * real_of_int (out_h mod 4)"
proof -
  have "4 * (out_h div 4 * 3) = 3 * out_h - 3 * (out_h mod 4)" by presburger
  then have "real_of_int (4 * (out_h div 4 * 3)) = real_of_int (3 * out_h - 3 * (out_h mod 4))"
    by (simp only:)
  then show ?thesis by simp
qed

text \<open>
  Claim C6, as the code has it. For a positive output height the draw of
  \<^verbatim>\<open>dst_height\<close> succeeds and lies between \<open>3 * (out_height div 4)\<close> and
  \<open>out_height\<close>, and both ends are drawn by some tape. The lower end is
  \<open>0.75 * out_height - 0.75 * (out_height mod 4)\<close>: it is 75% of the output height exactly
  when 4 divides the output height, and otherwise it is below 75%, by 0.75, 1.5 or 2.25.
\<close>

theorem crop_dst_height_range:
  "0 < out_h \<Longrightarrow>
   (\<exists>d. crop_dst_height out_h r = Inr (d, stl r) \<and> out_h div 4 * 3 \<le> d \<and> d \<le> out_h)
   \<and> (\<exists>r0. crop_dst_height out_h r0 = Inr (out_h div 4 * 3, stl r0))
   \<and> (\<exists>r0. crop_dst_height out_h r0 = Inr (out_h, stl r0))
   \<and> real_of_int (out_h div 4 * 3)
       = 3 / 4 * real_of_int out_h - 3 / 4 * real_of_int (out_h mod 4)
   \<and> (3 / 4 * real_of_int out_h \<le> real_of_int (out_h div 4 * 3)) = (out_h mod 4 = 0)"
proof -
  assume pos: "0 < out_h"
  have le: "out_h div 4 * 3 \<le> out_h" using pos by linarith
  have lo: "\<exists>r0. crop_dst_height out_h r0 = Inr (out_h div 4 * 3, stl r0)"
    using randint_attains[of "out_h div 4 * 3" "out_h div 4 * 3" out_h] le
    unfolding crop_dst_height_def by blast
  have hi: "\<exists>r0. crop_dst_height out_h r0 = Inr (out_h, stl r0)"
    using randint_attains[of "out_h div 4 * 3" out_h out_h] le
    unfolding crop_dst_height_def by blast
  have m: "0 \<le> out_h mod 4" by simp
  have "(3 / 4 * real_of_int out_h \<le> real_of_int (out_h div 4 * 3))
          = (real_of_int (out_h mod 4) \<le> 0)"
    unfolding lower_end_exact[of out_h] by auto
  also have "\<dots> = (out_h mod 4 = 0)" using m by linarith
  finally have eq: "(3 / 4 * real_of_int out_h \<le> real_of_int (out_h div 4 * 3))
          = (out_h mod 4 = 0)" .
  show ?thesis using crop_dst_height_Inr[OF pos, of r] lo hi lower_end_exact[of out_h] eq
    by blast
qed

theorem crop_dst_height_range_witness:
  "(0::int) < 7
   \<and> (\<exists>d. crop_dst_height 7 (sconst 0) = Inr (d, stl (sconst 0)) \<and> 7 div 4 * 3 \<le> d \<and> d \<le> 7)
   \<and> (\<exists>r0. crop_dst_height 7 r0 = Inr (7 div 4 * 3, stl r0))
   \<and> (\<exists>r0. crop_dst_height 7 r0 = Inr (7, stl r0))
   \<and> real_of_int (7 div 4 * 3) = 3 / 4 * real_of_int 7 - 3 / 4 * real_of_int (7 mod 4)
   \<and> 3 / 4 * real_of_int 7 - real_of_int (7 div 4 * 3) = 9 / 4"
proof -
  have p: "(0::int) < 7" by simp
  from crop_dst_height_range[OF p, of "sconst 0"] p show ?thesis by simp
qed

text \<open>
  With an output height of 5 and the raw draw 0 the placement height is 3, which is below
  75% of 5.
\<close>

theorem crop_dst_height_counterexample:
  "crop_dst_height 5 (sconst 0) = Inr (3, sconst 0) \<and> \<not> (0.75 * real_of_int 5 \<le> real_of_int 3)"
  by (simp add: crop_dst_height_def randint_def)

subsection \<open>Color inversion\<close>

text \<open>
  Claim C8, as the code has it. \<^verbatim>\<open>reverse_img\<close> returns \<open>255 + offset - img\<close> on every
  pixel, with an integer offset of \<open>[-10, 9]\<close>: \<^verbatim>\<open>np.random.randint(-10, 10)\<close> leaves
  the upper end out. Every offset of \<open>[-10, 9]\<close> is the result of some draw.
\<close>

theorem reverse_img_offset:
  "(\<exists>k. - 10 \<le> k \<and> k \<le> 9 \<and>
        reverse_img img r = Inr (img\<lparr>px := \<lambda>i j. 255 + real_of_int k - px img i j\<rparr>, stl r))
   \<and> (- 10 \<le> k0 \<and> k0 \<le> 9 \<longrightarrow>
        (\<exists>r0. reverse_img img r0 =
                Inr (img\<lparr>px := \<lambda>i j. 255 + real_of_int k0 - px img i j\<rparr>, stl r0)))"
proof
  have "int (shd r mod 20) < 20" by simp
  then show "\<exists>k. - 10 \<le> k \<and> k \<le> 9 \<and>
        reverse_img img r = Inr (img\<lparr>px := \<lambda>i j. 255 + real_of_int k - px img i j\<rparr>, stl r)"
    by (intro exI[of _ "- 10 + int (shd r mod 20)"]) (simp add: reverse_img_def np_randint_def)
next
  show "- 10 \<le> k0 \<and> k0 \<le> 9 \<longrightarrow>
        (\<exists>r0. reverse_img img r0 =
                Inr (img\<lparr>px := \<lambda>i j. 255 + real_of_int k0 - px img i j\<rparr>, stl r0))"
  proof
    assume k: "- 10 \<le> k0 \<and> k0 \<le> 9"
    then have "nat (k0 + 10) < 20" by linarith
    then have "nat (k0 + 10) mod 20 = nat (k0 + 10)" by (rule mod_less)
    then have "- 10 + int (shd (sconst (nat (k0 + 10))) mod 20) = k0" using k by simp
    then show "\<exists>r0. reverse_img img r0 =
                Inr (img\<lparr>px := \<lambda>i j. 255 + real_of_int k0 - px img i j\<rparr>, stl r0)"
      by (intro exI[of _ "sconst (nat (k0 + 10))"]) (simp add: reverse_img_def np_randint_def)
  qed
qed

theorem reverse_img_offset_witness:
  "(\<exists>k. - 10 \<le> k \<and> k \<le> 9 \<and>
        reverse_img \<lparr>rows = 1, cols = 1, px = \<lambda>i j. 100\<rparr> (sconst 3) =
          Inr (\<lparr>rows = 1, cols = 1, px = \<lambda>i j. 100\<rparr>
                 \<lparr>px := \<lambda>i j. 255 + real_of_int k - 100\<rparr>, stl (sconst 3)))
   \<and> (- 10 \<le> (9::int) \<and> (9::int) \<le> 9) \<and>
        (\<exists>r0. reverse_img \<lparr>rows = 1, cols = 1, px = \<lambda>i j. 100\<rparr> r0 =
                Inr (\<lparr>rows = 1, cols = 1, px = \<lambda>i j. 100\<rparr>
                       \<lparr>px := \<lambda>i j. 255 + real_of_int 9 - 100\<rparr>, stl r0))"
  using reverse_img_offset[of "\<lparr>rows = 1, cols = 1, px = \<lambda>i j. 100\<rparr>" "sconst 3" 9] by simp

text \<open>
  No draw gives the offset 10: on a black pixel the result is never \<open>255 + 10 - 0\<close>.
\<close>

theorem reverse_img_offset_counterexample:
  "\<not> (\<exists>r out r'. reverse_img \<lparr>rows = 1, cols = 1, px = \<lambda>i j. 0\<rparr> r = Inr (out, r')
        \<and> px out 0 0 = 255 + 10 - 0)"
proof
  assume "\<exists>r out r'. reverse_img \<lparr>rows = 1, cols = 1, px = \<lambda>i j. 0\<rparr> r = Inr (out, r')
        \<and> px out 0 0 = 255 + 10 - 0"
  then obtain r out r' where
    h: "reverse_img \<lparr>rows = 1, cols = 1, px = \<lambda>i j. 0\<rparr> r = Inr (out, r')" "px out 0 0 = 265"
    by auto
  from h(1) have "px out 0 0 = 255 + real_of_int (- 10 + int (shd r mod 20))"
    by (auto simp: reverse_img_def np_randint_def)
  with h(2) have "real_of_int (int (shd r mod 20)) = 20" by simp
  then have "int (shd r mod 20) = 20" by linarith
  moreover have "int (shd r mod 20) < 20" by simp
  ultimately show False by simp
qed

subsection \<open>One projection for the raster and the text points\<close>

lemma apply_perspective_transform_unfold:
  "apply_perspective_transform en img text_box_pnts max_x max_y max_z gp r =
     (let tr = fst (perspective_transformer en max_x max_y max_z r);
          M33 = fst (snd (transform_image tr img gp))
      in ((fst (transform_image tr img gp), snd (snd (transform_image tr img gp)),
           transform_pnts tr text_box_pnts M33),
          snd (perspective_transformer en max_x max_y max_z r)))"
  by (auto simp: apply_perspective_transform_def Let_def split: prod.splits)

text \<open>
  Claim C1, on the geometry service as the specification describes it. In every call of
  \<^verbatim>\<open>apply_perspective_transform\<close> there is one matrix \<open>M\<close>, built once from the three
  clipped draws with scale 1 and field of view 50, such that the returned raster and corner
  points are \<^verbatim>\<open>warp_image\<close> of the input raster with \<open>M\<close> and the returned text
  points are \<^verbatim>\<open>warp_points\<close> of the text quadrilateral with the same \<open>M\<close>.
\<close>

theorem apply_perspective_transform_one_matrix:
  assumes "PerspectiveTransform en = geometry_transformer g"
  shows "\<exists>x y z r1 r2 r3 M.
           cliped_rand_norm en 0 max_x r = (x, r1)
         \<and> cliped_rand_norm en 0 max_y r1 = (y, r2)
         \<and> cliped_rand_norm en 0 max_z r2 = (z, r3)
         \<and> M = build_projection g x y z 1 50
         \<and> apply_perspective_transform en img text_box_pnts max_x max_y max_z gp r
             = ((fst (warp_image g img M gp), snd (warp_image g img M gp),
                 warp_points g text_box_pnts M), r3)"
proof -
  obtain x r1 where x: "cliped_rand_norm en 0 max_x r = (x, r1)"
    by (cases "cliped_rand_norm en 0 max_x r")
  obtain y r2 where y: "cliped_rand_norm en 0 max_y r1 = (y, r2)"
    by (cases "cliped_rand_norm en 0 max_y r1")
  obtain z r3 where z: "cliped_rand_norm en 0 max_z r2 = (z, r3)"
    by (cases "cliped_rand_norm en 0 max_z r2")
  have t: "perspective_transformer en max_x max_y max_z r
             = (geometry_transformer g x y z 1 50, r3)"
    by (simp add: perspective_transformer_def x y z assms)
  have "apply_perspective_transform en img text_box_pnts max_x max_y max_z gp r
             = ((fst (warp_image g img (build_projection g x y z 1 50) gp),
                 snd (warp_image g img (build_projection g x y z 1 50) gp),
                 warp_points g text_box_pnts (build_projection g x y z 1 50)), r3)"
    unfolding apply_perspective_transform_unfold t
    by (simp add: geometry_transformer_def Let_def)
  with x y z show ?thesis by blast
qed

text \<open>
  With the bounds 3, 5 and 0 the matrix is the translation by \<open>(3, 5)\<close>: the corner points
  of the 160 by 160 raster and the text points are moved by the same \<open>(3, 5)\<close>.
\<close>

theorem apply_perspective_transform_one_matrix_witness:
  "PerspectiveTransform shift_env = geometry_transformer shift_geometry
   \<and> apply_perspective_transform shift_env \<lparr>rows = 160, cols = 160, px = \<lambda>i j. 240\<rparr>
        [(70, 70), (90, 70), (90, 90), (70, 90)] 3 5 0 False (sconst 0)
       = ((\<lparr>rows = 160, cols = 160, px = \<lambda>i j. 240\<rparr>,
           [(3, 5), (163, 5), (163, 165), (3, 165)],
           [(73, 75), (93, 75), (93, 95), (73, 95)]), sconst 0)
   \<and> build_projection shift_geometry 3 5 0 1 50 = [[1, 0, 3], [0, 1, 5], [0, 0, 1]]"
proof -
  have h: "PerspectiveTransform shift_env = geometry_transformer shift_geometry"
    by (simp add: shift_env_def)
  have c: "cliped_rand_norm shift_env 0 s r = (s, r)" for s r
    by (simp add: shift_env_def)
  from apply_perspective_transform_one_matrix[OF h,
         of 3 "sconst 0" 5 0 "\<lparr>rows = 160, cols = 160, px = \<lambda>i j. 240\<rparr>"
            "[(70, 70), (90, 70), (90, 90), (70, 90)]" False]
  have "apply_perspective_transform shift_env \<lparr>rows = 160, cols = 160, px = \<lambda>i j. 240\<rparr>
        [(70, 70), (90, 70), (90, 90), (70, 90)] 3 5 0 False (sconst 0)
       = ((\<lparr>rows = 160, cols = 160, px = \<lambda>i j. 240\<rparr>,
           [(3, 5), (163, 5), (163, 165), (3, 165)],
           [(73, 75), (93, 75), (93, 95), (73, 95)]), sconst 0)"
    by (auto simp: c shift_geometry_def shift_points_def)
  then show ?thesis using h by (simp add: shift_geometry_def)
qed

subsection \<open>Random inter-character spacing\<close>

lemma measure_chars_eq:
  "measure_chars fnt word (w, h, cs, y) =
     (w + sum_list (map (\<lambda>c. fst (getsize fnt [c])) word),
      fold max (map (\<lambda>c. snd (getsize fnt [c])) word) h,
      cs @ map (\<lambda>c. getsize fnt [c]) word,
      fold min (map (\<lambda>c. snd (getoffset fnt [c])) word) y)"
  by (induction word arbitrary: w h cs y) (simp_all add: Let_def max_def min_def)

lemma random_unit_range: "0 \<le> fst (random_unit r) \<and> fst (random_unit r) < 1"
proof -
  have "shd r mod 9007199254740992 < 9007199254740992" by simp
  then have "real (shd r mod 9007199254740992) < 9007199254740992"
    by (metis of_nat_less_iff of_nat_numeral)
  then show ?thesis by (simp add: random_unit_def)
qed

lemma uniform_range:
  assumes "a \<le> b"
  shows "a \<le> fst (uniform a b r) \<and> fst (uniform a b r) \<le> b"
proof -
  have u: "0 \<le> fst (random_unit r)" "fst (random_unit r) < 1"
    using random_unit_range[of r] by simp_all
  have "0 \<le> (b - a) * fst (random_unit r)" using assms u by simp
  moreover have "(b - a) * fst (random_unit r) \<le> (b - a) * 1"
    using assms u by (intro mult_left_mono) simp_all
  ultimately show ?thesis by (simp add: uniform_def)
qed

lemma fold_max_Max:
  assumes "xs \<noteq> []" and "\<forall>x\<in>set xs. (0::int) \<le> x"
  shows "fold max xs 0 = Max (set xs)"
proof -
  have "fold max xs 0 = Max (set (0 # xs))" by (simp only: Max.set_eq_fold)
  also have "\<dots> = max 0 (Max (set xs))" using assms(1) by simp
  also have "\<dots> = Max (set xs)"
  proof -
    obtain x where "x \<in> set xs" using assms(1) by (cases xs) auto
    then have "0 \<le> x" "x \<le> Max (set xs)" using assms(2) by auto
    then show ?thesis by simp
  qed
  finally show ?thesis .
qed

text \<open>
  Claim C7, as the code has it. The word height is the running maximum of the character
  heights (starting at 0; the maximum itself for a word that has a character and no negative
  height), the gap is \<^verbatim>\<open>int(height * u)\<close>, truncated toward zero, with \<open>u\<close> the
  uniform draw between the configured bounds, and the returned width is the sum of the
  character widths plus \<open>len(word) - 1\<close> gaps.
\<close>

theorem draw_text_with_random_space_size:
  assumes "draw_text_with_random_space lib self draw fnt word word_color bg_width bg_height r =
             ((text_x, text_y, width, height), img', r')"
  shows "height = fold max (map (\<lambda>c. snd (getsize fnt [c])) word) 0
     \<and> (word \<noteq> [] \<and> (\<forall>c\<in>set word. 0 \<le> snd (getsize fnt [c])) \<longrightarrow>
          height = Max ((\<lambda>c. snd (getsize fnt [c])) ` set word))
     \<and> (\<exists>u. u = fst (uniform (random_space_min (cfg self)) (random_space_max (cfg self)) r)
          \<and> (random_space_min (cfg self) \<le> random_space_max (cfg self) \<longrightarrow>
                random_space_min (cfg self) \<le> u \<and> u \<le> random_space_max (cfg self))
          \<and> width = sum_list (map (\<lambda>c. fst (getsize fnt [c])) word)
                      + py_int (real_of_int height * u) * (int (length word) - 1))"
proof -
  from assms have h: "height = fold max (map (\<lambda>c. snd (getsize fnt [c])) word) 0"
    and w: "width = sum_list (map (\<lambda>c. fst (getsize fnt [c])) word)
              + py_int (real_of_int height
                  * fst (uniform (random_space_min (cfg self)) (random_space_max (cfg self)) r))
                * (int (length word) - 1)"
    by (auto simp: draw_text_with_random_space_def measure_chars_eq Let_def
          split: prod.splits)
  have m: "height = Max ((\<lambda>c. snd (getsize fnt [c])) ` set word)"
    if "word \<noteq> []" "\<forall>c\<in>set word. 0 \<le> snd (getsize fnt [c])"
    using fold_max_Max[of "map (\<lambda>c. snd (getsize fnt [c])) word"] that h by simp
  show ?thesis using h w m uniform_range by blast
qed

theorem draw_text_with_random_space_size_witness:
  "draw_text_with_random_space plain_lib (plain_renderer False False False 100 32 [])
       \<lparr>rows = 100, cols = 100, px = \<lambda>i j. 240\<rparr> (mono_font 2 4) [65, 66] 0 100 100 (sconst 0) =
     ((47, 48, 5, 4), \<lparr>rows = 100, cols = 100, px = \<lambda>i j. 240\<rparr>, sconst 0)
   \<and> (4::int) = fold max (map (\<lambda>c. snd (getsize (mono_font 2 4) [c])) [65, 66]) 0
   \<and> (5::int) = sum_list (map (\<lambda>c. fst (getsize (mono_font 2 4) [c])) [65, 66])
                   + py_int (real_of_int 4 * (7 / 16)) * (int (length [65 :: nat, 66]) - 1)"
proof -
  have e: "draw_text_with_random_space plain_lib (plain_renderer False False False 100 32 [])
       \<lparr>rows = 100, cols = 100, px = \<lambda>i j. 240\<rparr> (mono_font 2 4) [65, 66] 0 100 100 (sconst 0) =
     ((47, 48, 5, 4), \<lparr>rows = 100, cols = 100, px = \<lambda>i j. 240\<rparr>, sconst 0)"
    by (simp add: draw_text_with_random_space_def plain_renderer_def Renderer_init_def
          plain_cfg_def plain_lib_def mono_font_def uniform_def random_unit_def py_int_def Let_def)
  show ?thesis
    using draw_text_with_random_space_size[OF e] e
    by (simp add: plain_renderer_def Renderer_init_def plain_cfg_def mono_font_def
          uniform_def random_unit_def py_int_def)
qed

text \<open>
  Two glyphs of width 2 and height 4 and \<open>u = 7/16\<close>: the gap is \<open>int(1.75) = 1\<close> and
  the width 5, where the rounded gap \<open>round(1.75) = 2\<close> would give 6.
\<close>

theorem draw_text_with_random_space_size_counterexample:
  "fst (draw_text_with_random_space plain_lib (plain_renderer False False False 100 32 [])
       \<lparr>rows = 100, cols = 100, px = \<lambda>i j. 240\<rparr> (mono_font 2 4) [65, 66] 0 100 100 (sconst 0)) =
     (47, 48, 5, 4)
   \<and> fst (uniform (random_space_min (cfg (plain_renderer False False False 100 32 [])))
              (random_space_max (cfg (plain_renderer False False False 100 32 []))) (sconst 0)) = 7 / 16
   \<and> np_around (real_of_int 4 * (7 / 16)) = 2
   \<and> (5::int) \<noteq> (2 + 2) + np_around (real_of_int 4 * (7 / 16)) * (2 - 1)"
  by (simp add: draw_text_with_random_space_def plain_renderer_def Renderer_init_def
        plain_cfg_def plain_lib_def mono_font_def uniform_def random_unit_def py_int_def
        np_around_def Let_def)

subsection \<open>A run of the pipeline on the sample objects\<close>

text \<open>
  The sample \<open>ABC\<close> with clipping on and an output of 12 by 32: the word is cut to
  \<open>AB\<close>, drawn on a 160 by 160 background, cropped at \<open>(70, 70, 21, 56)\<close> and resized.
\<close>

lemmas plain_defs = plain_env_def plain_lib_def plain_renderer_def Renderer_init_def
  plain_cfg_def mono_font_def plain_transformer_def

lemma w_pick:
  "pick_font plain_lib (plain_env [65, 66, 67]) (plain_renderer False False True 12 32 [])
      (sconst 0) = Some (([65, 66], mono_font 10 20, (20, 20)), sconst 0)"
  by (subst pick_font.simps)
     (simp add: pick_font_attempt_def plain_defs choice_def randint_def py_take_def
        slice_index_def get_word_size_def Let_def)

lemma w_bg:
  "gen_bg plain_lib (plain_env [65, 66, 67]) (plain_renderer False False True 12 32 [])
      160 160 (sconst 0) = Inr (\<lparr>rows = 160, cols = 160, px = \<lambda>i j. 240\<rparr>, sconst 0)"
  by (simp add: gen_bg_def plain_defs)

lemma w_color:
  "get_word_color \<lparr>rows = 160, cols = 160, px = \<lambda>i j. 240\<rparr> 70 70 20 20 (sconst 0)
     = Inr (0, sconst 0)"
  by (simp add: get_word_color_def slice2_def slice_index_def np_mean_def py_int_def
        randint_def Let_def)

lemma w_text:
  "draw_text_on_bg plain_lib (plain_env [65, 66, 67]) (plain_renderer False False True 12 32 [])
      [65, 66] (mono_font 10 20) \<lparr>rows = 160, cols = 160, px = \<lambda>i j. 240\<rparr> (sconst 0)
     = Inr ((np_uint8 \<lparr>rows = 160, cols = 160, px = \<lambda>i j. 240\<rparr>,
             [(70, 70), (90, 70), (90, 90), (70, 90)], 0), sconst 0)"
proof -
  have g: "get_word_size (mono_font 10 20) [65, 66] = (20, 20)"
    by (simp add: get_word_size_def mono_font_def)
  show ?thesis
    unfolding draw_text_on_bg_def g
    by (simp add: py_int_def w_color Let_def plain_defs)
qed

lemma w_box: "boundingRect [(70, 70), (90, 70), (90, 90), (70, 90)] = (70, 70, 21, 21)"
  by (simp add: boundingRect_def)

lemma w_crop_bbox:
  "crop_dst_bbox 12 32 [(70, 70), (90, 70), (90, 90), (70, 90)] (sconst 0)
     = Inr ((70, 70, 21, 56), sconst 0)"
  unfolding crop_dst_bbox_def w_box
  by (simp add: crop_dst_height_def randint_def random_xy_offset_def np_around_def Let_def)

lemma w_crop:
  "crop_img plain_lib (plain_renderer False False True 12 32 [])
      (np_uint8 \<lparr>rows = 160, cols = 160, px = \<lambda>i j. 240\<rparr>)
      [(70, 70), (90, 70), (90, 90), (70, 90)] (sconst 0)
     = Inr ((\<lparr>rows = 32, cols = 12, px = \<lambda>i j. 240\<rparr>, (70, 70, 21, 56)), sconst 0)"
proof -
  have o: "out_width (plain_renderer False False True 12 32 []) = 12"
    "out_height (plain_renderer False False True 12 32 []) = 32"
    by (simp_all add: plain_defs)
  show ?thesis
    unfolding crop_img_def o w_crop_bbox
    by (simp add: cv_resize_def slice2_def slice_index_def np_uint8_def py_int_def plain_lib_def)
qed

lemma w_compose:
  "gen_img_compose plain_lib (plain_env [65, 66, 67]) (plain_renderer False False True 12 32 [])
      [65, 66] (mono_font 10 20) (20, 20) (sconst 0)
     = Inr (\<lparr>rows = 32, cols = 12, px = \<lambda>i j. 240\<rparr>, sconst 0)"
proof -
  have p: "apply_perspective_transform (plain_env [65, 66, 67])
             (np_uint8 \<lparr>rows = 160, cols = 160, px = \<lambda>i j. 240\<rparr>)
             [(70, 70), (90, 70), (90, 90), (70, 90)] 0 0 0 False (sconst 0)
           = ((np_uint8 \<lparr>rows = 160, cols = 160, px = \<lambda>i j. 240\<rparr>,
               [(0, 0), (160, 0), (160, 160), (0, 160)],
               [(70, 70), (90, 70), (90, 90), (70, 90)]), sconst 0)"
    by (simp add: apply_perspective_transform_def perspective_transformer_def plain_env_def
          plain_transformer_def np_uint8_def)
  have c: "cfg_line (cfg (plain_renderer False False True 12 32 [])) = False"
    "perspective_max_x (cfg (plain_renderer False False True 12 32 [])) = 0"
    "perspective_max_y (cfg (plain_renderer False False True 12 32 [])) = 0"
    "perspective_max_z (cfg (plain_renderer False False True 12 32 [])) = 0"
    "gpu (plain_renderer False False True 12 32 []) = False"
    "debug (plain_renderer False False True 12 32 []) = False"
    by (simp_all add: plain_defs)
  have a: "utils_apply (plain_env [65, 66, 67]) False (sconst 0) = (False, sconst 0)"
    by (simp add: plain_env_def)
  show ?thesis
    unfolding gen_img_compose_def
    by (simp add: w_bg w_text c a p w_crop)
qed

lemma w_effects:
  "gen_img_effects plain_lib (plain_env [65, 66, 67]) (plain_renderer False False True 12 32 [])
      [65, 66] \<lparr>rows = 32, cols = 12, px = \<lambda>i j. 240\<rparr> (sconst 0)
     = Inr ((\<lparr>rows = 32, cols = 12, px = \<lambda>i j. 240\<rparr>, [65, 66]), sconst 0)"
  by (simp add: gen_img_effects_def gen_img_noise_def gen_img_blur_def np_clip_def plain_defs)

lemma w_gen_img:
  "gen_img plain_lib (plain_env [65, 66, 67]) (plain_renderer False False True 12 32 [])
      (sconst 0)
     = Some (Inr ((\<lparr>rows = 32, cols = 12, px = \<lambda>i j. 240\<rparr>, [65, 66]), sconst 0))"
  by (simp add: gen_img_def w_pick w_compose w_effects)

subsection \<open>Blur and pseudo-downsample exclude each other\<close>

lemma gen_img_noise_prydown:
  "gen_img_noise en (self\<lparr>cfg := (cfg self)\<lparr>cfg_prydown := p, prydown_max_scale := m\<rparr>\<rparr>) img r
     = gen_img_noise en self img r"
  by (simp add: gen_img_noise_def)

lemma gen_img_blur_fires:
  assumes "fst (utils_apply en (cfg_blur (cfg self)) r)"
  shows "gen_img_blur lib en self img r
           = apply_blur_on_output lib en img (snd (utils_apply en (cfg_blur (cfg self)) r))"
  using assms by (auto simp: gen_img_blur_def split: prod.splits sum.splits)

text \<open>
  Claim C9. When the blur toggle fires (at the tape the noise stage leaves), the result of
  the post-effects does not depend on the pseudo-downsample item of the configuration, nor on
  its maximal scale: the blur stage is \<^verbatim>\<open>apply_blur_on_output\<close> alone and
  \<^verbatim>\<open>apply(self.cfg.prydown)\<close> is not even drawn.
\<close>

theorem gen_img_blur_excludes_prydown:
  assumes "gen_img_noise en self word_img r = Inr (img1, r1)"
    and "fst (utils_apply en (cfg_blur (cfg self)) r1)"
  shows "gen_img_effects lib en
           (self\<lparr>cfg := (cfg self)\<lparr>cfg_prydown := p, prydown_max_scale := m\<rparr>\<rparr>) word word_img r
           = gen_img_effects lib en self word word_img r
     \<and> gen_img_blur lib en
           (self\<lparr>cfg := (cfg self)\<lparr>cfg_prydown := p, prydown_max_scale := m\<rparr>\<rparr>) img1 r1
           = apply_blur_on_output lib en img1 (snd (utils_apply en (cfg_blur (cfg self)) r1))"
proof -
  let ?self' = "self\<lparr>cfg := (cfg self)\<lparr>cfg_prydown := p, prydown_max_scale := m\<rparr>\<rparr>"
  have b': "fst (utils_apply en (cfg_blur (cfg ?self')) r1)" using assms(2) by simp
  have e1: "gen_img_blur lib en ?self' img1 r1
           = apply_blur_on_output lib en img1 (snd (utils_apply en (cfg_blur (cfg self)) r1))"
    using gen_img_blur_fires[OF b', of lib img1] by simp
  have e2: "gen_img_blur lib en self img1 r1
           = apply_blur_on_output lib en img1 (snd (utils_apply en (cfg_blur (cfg self)) r1))"
    using gen_img_blur_fires[OF assms(2), of lib img1] by simp
  have n': "gen_img_noise en ?self' word_img r = Inr (img1, r1)"
    using assms(1) by (simp only: gen_img_noise_prydown)
  have "gen_img_effects lib en ?self' word word_img r = gen_img_effects lib en self word word_img r"
    unfolding gen_img_effects_def n' assms(1) by (simp add: e1 e2 cong: sum.case_cong)
  then show ?thesis using e1 by simp
qed

theorem gen_img_blur_excludes_prydown_witness:
  "gen_img_noise (plain_env [65, 66]) (plain_renderer True True False 100 32 [])
       \<lparr>rows = 32, cols = 100, px = \<lambda>i j. 240\<rparr> (sconst 0)
     = Inr (\<lparr>rows = 32, cols = 100, px = \<lambda>i j. 240\<rparr>, sconst 0)
   \<and> fst (utils_apply (plain_env [65, 66])
            (cfg_blur (cfg (plain_renderer True True False 100 32 []))) (sconst 0))
   \<and> cfg_prydown (cfg (plain_renderer True True False 100 32 []))
   \<and> gen_img_effects plain_lib (plain_env [65, 66])
         ((plain_renderer True True False 100 32 [])
            \<lparr>cfg := (cfg (plain_renderer True True False 100 32 []))
                      \<lparr>cfg_prydown := False, prydown_max_scale := 2\<rparr>\<rparr>)
         [65, 66] \<lparr>rows = 32, cols = 100, px = \<lambda>i j. 240\<rparr> (sconst 0)
       = gen_img_effects plain_lib (plain_env [65, 66]) (plain_renderer True True False 100 32 [])
           [65, 66] \<lparr>rows = 32, cols = 100, px = \<lambda>i j. 240\<rparr> (sconst 0)"
proof -
  have h1: "gen_img_noise (plain_env [65, 66]) (plain_renderer True True False 100 32 [])
       \<lparr>rows = 32, cols = 100, px = \<lambda>i j. 240\<rparr> (sconst 0)
     = Inr (\<lparr>rows = 32, cols = 100, px = \<lambda>i j. 240\<rparr>, sconst 0)"
    by (simp add: gen_img_noise_def plain_env_def plain_renderer_def Renderer_init_def
          plain_cfg_def)
  have h2: "fst (utils_apply (plain_env [65, 66])
            (cfg_blur (cfg (plain_renderer True True False 100 32 []))) (sconst 0))"
    by (simp add: plain_env_def plain_renderer_def Renderer_init_def plain_cfg_def)
  have h3: "cfg_prydown (cfg (plain_renderer True True False 100 32 []))"
    by (simp add: plain_renderer_def Renderer_init_def plain_cfg_def)
  from gen_img_blur_excludes_prydown[OF h1 h2, where lib = plain_lib and p = False and m = 2
      and word = "[65, 66]"] h1 h2 h3
  show ?thesis by blast
qed

subsection \<open>Clipping the word to the output width\<close>

lemma pick_font_attempt_word:
  assumes "pick_font_attempt lib en self r = (Inr (word, fnt, sz), r')"
    and "clip_max_chars self" and "0 \<le> max_chars self"
  shows "int (length word) \<le> max_chars self
     \<and> word = take (nat (max_chars self)) (fst (corpus_get_sample en r))
     \<and> sz = get_word_size fnt word"
proof -
  obtain sample r1 where s: "corpus_get_sample en r = (sample, r1)"
    by (cases "corpus_get_sample en r")
  have w: "word = (if int (length sample) > max_chars self
                   then py_take (max_chars self) sample else sample)"
    and z: "sz = get_word_size fnt word"
    using assms(1,2) unfolding pick_font_attempt_def s
    by (auto simp: Let_def split: sum.splits if_splits prod.splits)
  have "word = take (nat (max_chars self)) sample" "int (length word) \<le> max_chars self"
    using assms(3) unfolding w by (auto simp: py_take_def slice_index_def min_def)
  then show ?thesis using z s by simp
qed

lemma pick_font_word:
  assumes "pick_font lib en self r = Some ((word, fnt, sz), r')"
    and "clip_max_chars self" and "0 \<le> max_chars self"
  shows "int (length word) \<le> max_chars self
     \<and> (\<exists>ra. word = take (nat (max_chars self)) (fst (corpus_get_sample en ra)))
     \<and> sz = get_word_size fnt word"
proof -
  let ?P = "\<lambda>(lib :: cvlib) (en :: 'a env) (self :: 'a renderer) (r :: rng)
              (y :: (pystr \<times> font \<times> (int \<times> int)) \<times> rng).
        clip_max_chars self \<longrightarrow> 0 \<le> max_chars self \<longrightarrow>
        int (length (fst (fst y))) \<le> max_chars self
        \<and> (\<exists>ra. fst (fst y) = take (nat (max_chars self)) (fst (corpus_get_sample en ra)))
        \<and> snd (snd (fst y)) = get_word_size (fst (snd (fst y))) (fst (fst y))"
  have "?P lib en self r ((word, fnt, sz), r')"
  proof (rule pick_font.raw_induct[where P = ?P, OF _ assms(1)])
    fix pf lib0 and en0 :: "'a env" and self0 :: "'a renderer" and r0 y0
    assume IH: "\<And>en self r b y. pf en self r b = Some y \<Longrightarrow> ?P en self r b y"
      and eq: "(case pick_font_attempt lib0 en0 self0 r0 of
                  (Inl e, r') \<Rightarrow> pf lib0 en0 self0 r'
                | (Inr res, r') \<Rightarrow> Some (res, r')) = Some y0"
    show "?P lib0 en0 self0 r0 y0"
    proof (cases "pick_font_attempt lib0 en0 self0 r0")
      case (Pair res r1)
      show ?thesis
      proof (cases res)
        case (Inl e)
        with Pair eq have "pf lib0 en0 self0 r1 = Some y0" by simp
        then show ?thesis by (rule IH)
      next
        case (Inr v)
        obtain w0 f0 s0 where v: "v = (w0, f0, s0)" by (cases v)
        from Pair Inr eq have y: "y0 = (v, r1)" by simp
        show ?thesis
          using pick_font_attempt_word[of lib0 en0 self0 r0 w0 f0 s0 r1] Pair Inr v y by auto
      qed
    qed
  qed
  then show ?thesis using assms(2,3) by simp
qed

lemma gen_img_effects_word:
  "gen_img_effects lib en self word word_img r = Inr ((img, label), r') \<Longrightarrow> label = word"
  by (auto simp: gen_img_effects_def split: sum.splits prod.splits if_splits)

lemma Renderer_init_max_chars:
  "max_chars (Renderer_init fnts bs c width height clip dbg gp strct fc) = width div 4 - 1"
proof -
  have "\<lfloor>real_of_int width / 4\<rfloor> = width div 4"
    using floor_divide_of_int_eq[of width 4, where ?'a = real] by simp
  then show ?thesis by (simp add: Renderer_init_def)
qed

lemma gen_img_compose_InrD:
  assumes "gen_img_compose lib en self word fnt word_size r = Inr (word_img, r')"
  shows "\<exists>bg ra res rb. gen_bg lib en self (fst word_size * 8) (snd word_size * 8) r = Inr (bg, ra)
           \<and> draw_text_on_bg lib en self word fnt bg ra = Inr (res, rb)"
  using assms by (auto simp: gen_img_compose_def split: sum.splits)

text \<open>
  Claim C10, as the code has it. With \<^verbatim>\<open>clip_max_chars\<close> on, the limit is
  \<open>floor(width / 4) - 1\<close>, set by the constructor from the output width. For a width of at
  least 4, whenever \<^verbatim>\<open>gen_img\<close> returns, its label is a corpus sample cut to its first
  \<open>floor(width / 4) - 1\<close> characters, so at most that many, and the label is the word that
  \<^verbatim>\<open>pick_font\<close> returned, that was sized, drawn on the background by
  \<^verbatim>\<open>draw_text_on_bg\<close> and passed through the post-effects.
\<close>

theorem clip_max_chars_label:
  assumes "self = Renderer_init fnts bs c width height True dbg gp strct fc"
    and "4 \<le> width"
    and "gen_img lib en self r = Some (Inr ((img, label), r'))"
  shows "max_chars self = width div 4 - 1
     \<and> int (length label) \<le> width div 4 - 1
     \<and> (\<exists>ra. label = take (nat (width div 4 - 1)) (fst (corpus_get_sample en ra)))
     \<and> (\<exists>fnt r1 bg ra res rb word_img r2.
           pick_font lib en self r = Some ((label, fnt, get_word_size fnt label), r1)
         \<and> gen_bg lib en self (fst (get_word_size fnt label) * 8)
               (snd (get_word_size fnt label) * 8) r1 = Inr (bg, ra)
         \<and> draw_text_on_bg lib en self label fnt bg ra = Inr (res, rb)
         \<and> gen_img_compose lib en self label fnt (get_word_size fnt label) r1
               = Inr (word_img, r2)
         \<and> gen_img_effects lib en self label word_img r2 = Inr ((img, label), r'))"
proof -
  have m: "max_chars self = width div 4 - 1"
    using assms(1) by (simp only: Renderer_init_max_chars)
  have c: "clip_max_chars self" using assms(1) by (simp add: Renderer_init_def)
  have nn: "0 \<le> max_chars self" using m assms(2) by linarith
  from assms(3) obtain word fnt sz r1 where
    pf: "pick_font lib en self r = Some ((word, fnt, sz), r1)"
    by (auto simp: gen_img_def split: option.splits)
  from assms(3) pf have
    "(case gen_img_compose lib en self word fnt sz r1 of
        Inl e \<Rightarrow> Inl e
      | Inr (word_img, r2) \<Rightarrow> gen_img_effects lib en self word word_img r2)
     = Inr ((img, label), r')"
    by (simp add: gen_img_def)
  then obtain word_img r2 where
    gc: "gen_img_compose lib en self word fnt sz r1 = Inr (word_img, r2)"
    and ge: "gen_img_effects lib en self word word_img r2 = Inr ((img, label), r')"
    by (auto split: sum.splits)
  from ge have l: "label = word" by (rule gen_img_effects_word)
  from pick_font_word[OF pf c nn] have
    w: "int (length word) \<le> max_chars self"
    "\<exists>ra. word = take (nat (max_chars self)) (fst (corpus_get_sample en ra))"
    "sz = get_word_size fnt word" by simp_all
  from gen_img_compose_InrD[OF gc] obtain bg ra res rb where
    b: "gen_bg lib en self (fst sz * 8) (snd sz * 8) r1 = Inr (bg, ra)"
    "draw_text_on_bg lib en self word fnt bg ra = Inr (res, rb)" by blast
  have "\<exists>fnt r1 bg ra res rb word_img r2.
           pick_font lib en self r = Some ((label, fnt, get_word_size fnt label), r1)
         \<and> gen_bg lib en self (fst (get_word_size fnt label) * 8)
               (snd (get_word_size fnt label) * 8) r1 = Inr (bg, ra)
         \<and> draw_text_on_bg lib en self label fnt bg ra = Inr (res, rb)
         \<and> gen_img_compose lib en self label fnt (get_word_size fnt label) r1
               = Inr (word_img, r2)
         \<and> gen_img_effects lib en self label word_img r2 = Inr ((img, label), r')"
    using pf gc ge b unfolding l w(3) by blast
  then show ?thesis using w(1,2) m unfolding l by simp
qed

theorem clip_max_chars_label_witness:
  "plain_renderer False False True 12 32 []
     = Renderer_init [''font.ttf''] [] (plain_cfg False False) 12 32 True False False False Map.empty
   \<and> (4::int) \<le> 12
   \<and> gen_img plain_lib (plain_env [65, 66, 67]) (plain_renderer False False True 12 32 [])
        (sconst 0)
       = Some (Inr ((\<lparr>rows = 32, cols = 12, px = \<lambda>i j. 240\<rparr>, [65, 66]), sconst 0))
   \<and> max_chars (plain_renderer False False True 12 32 []) = 12 div 4 - 1
   \<and> int (length [65 :: nat, 66]) \<le> 12 div 4 - 1
   \<and> (\<exists>ra. [65, 66] = take (nat (12 div 4 - 1))
                          (fst (corpus_get_sample (plain_env [65, 66, 67]) ra)))
   \<and> draw_text_on_bg plain_lib (plain_env [65, 66, 67])
        (plain_renderer False False True 12 32 []) [65, 66] (mono_font 10 20)
        \<lparr>rows = 160, cols = 160, px = \<lambda>i j. 240\<rparr> (sconst 0)
       = Inr ((np_uint8 \<lparr>rows = 160, cols = 160, px = \<lambda>i j. 240\<rparr>,
               [(70, 70), (90, 70), (90, 90), (70, 90)], 0), sconst 0)"
proof -
  have i: "plain_renderer False False True 12 32 []
     = Renderer_init [''font.ttf''] [] (plain_cfg False False) 12 32 True False False False Map.empty"
    by (simp add: plain_renderer_def)
  have w: "(4::int) \<le> 12" by simp
  from clip_max_chars_label[OF i w w_gen_img] have
    "max_chars (plain_renderer False False True 12 32 []) = 12 div 4 - 1
     \<and> int (length [65 :: nat, 66]) \<le> 12 div 4 - 1
     \<and> (\<exists>ra. [65, 66] = take (nat (12 div 4 - 1))
                          (fst (corpus_get_sample (plain_env [65, 66, 67]) ra)))"
    by blast
  then show ?thesis using i w w_gen_img w_text by blast
qed

text \<open>
  With the output width 3 the limit is -1: the sample \<open>ABC\<close> is longer than that,
  \<^verbatim>\<open>word[:-1]\<close> is \<open>AB\<close>, and \<^verbatim>\<open>gen_img\<close> returns a label of 2 characters.
\<close>

lemma w3_pick:
  "pick_font plain_lib (plain_env [65, 66, 67]) (plain_renderer False False True 3 32 [])
      (sconst 0) = Some (([65, 66], mono_font 10 20, (20, 20)), sconst 0)"
  by (subst pick_font.simps)
     (simp add: pick_font_attempt_def plain_defs choice_def randint_def py_take_def
        slice_index_def get_word_size_def Let_def)

lemma w3_crop:
  "crop_img plain_lib (plain_renderer False False True 3 32 [])
      (np_uint8 \<lparr>rows = 160, cols = 160, px = \<lambda>i j. 240\<rparr>)
      [(70, 70), (90, 70), (90, 90), (70, 90)] (sconst 0)
     = Inr ((\<lparr>rows = 32, cols = 3, px = \<lambda>i j. 240\<rparr>, (70, 70, 21, 224)), sconst 0)"
proof -
  have o: "out_width (plain_renderer False False True 3 32 []) = 3"
    "out_height (plain_renderer False False True 3 32 []) = 32"
    by (simp_all add: plain_defs)
  have c: "crop_dst_bbox 3 32 [(70, 70), (90, 70), (90, 90), (70, 90)] (sconst 0)
             = Inr ((70, 70, 21, 224), sconst 0)"
    unfolding crop_dst_bbox_def w_box
    by (simp add: crop_dst_height_def randint_def random_xy_offset_def np_around_def Let_def)
  show ?thesis
    unfolding crop_img_def o c
    by (simp add: cv_resize_def slice2_def slice_index_def np_uint8_def py_int_def plain_lib_def)
qed

lemma w3_gen_img:
  "gen_img plain_lib (plain_env [65, 66, 67]) (plain_renderer False False True 3 32 [])
      (sconst 0)
     = Some (Inr ((\<lparr>rows = 32, cols = 3, px = \<lambda>i j. 240\<rparr>, [65, 66]), sconst 0))"
proof -
  let ?S = "plain_renderer False False True 3 32 []"
  have b: "gen_bg plain_lib (plain_env [65, 66, 67]) ?S 160 160 (sconst 0)
             = Inr (\<lparr>rows = 160, cols = 160, px = \<lambda>i j. 240\<rparr>, sconst 0)"
    by (simp add: gen_bg_def plain_defs)
  have g: "get_word_size (mono_font 10 20) [65, 66] = (20, 20)"
    by (simp add: get_word_size_def mono_font_def)
  have t: "draw_text_on_bg plain_lib (plain_env [65, 66, 67]) ?S
             [65, 66] (mono_font 10 20) \<lparr>rows = 160, cols = 160, px = \<lambda>i j. 240\<rparr> (sconst 0)
           = Inr ((np_uint8 \<lparr>rows = 160, cols = 160, px = \<lambda>i j. 240\<rparr>,
                   [(70, 70), (90, 70), (90, 90), (70, 90)], 0), sconst 0)"
    unfolding draw_text_on_bg_def g
    by (simp add: py_int_def w_color Let_def plain_defs)
  have p: "apply_perspective_transform (plain_env [65, 66, 67])
             (np_uint8 \<lparr>rows = 160, cols = 160, px = \<lambda>i j. 240\<rparr>)
             [(70, 70), (90, 70), (90, 90), (70, 90)] 0 0 0 False (sconst 0)
           = ((np_uint8 \<lparr>rows = 160, cols = 160, px = \<lambda>i j. 240\<rparr>,
               [(0, 0), (160, 0), (160, 160), (0, 160)],
               [(70, 70), (90, 70), (90, 90), (70, 90)]), sconst 0)"
    by (simp add: apply_perspective_transform_def perspective_transformer_def plain_env_def
          plain_transformer_def np_uint8_def)
  have c: "cfg_line (cfg ?S) = False" "perspective_max_x (cfg ?S) = 0"
    "perspective_max_y (cfg ?S) = 0" "perspective_max_z (cfg ?S) = 0"
    "gpu ?S = False" "debug ?S = False"
    by (simp_all add: plain_defs)
  have a: "utils_apply (plain_env [65, 66, 67]) False (sconst 0) = (False, sconst 0)"
    by (simp add: plain_env_def)
  have cm: "gen_img_compose plain_lib (plain_env [65, 66, 67]) ?S
              [65, 66] (mono_font 10 20) (20, 20) (sconst 0)
            = Inr (\<lparr>rows = 32, cols = 3, px = \<lambda>i j. 240\<rparr>, sconst 0)"
    unfolding gen_img_compose_def by (simp add: b t c a p w3_crop)
  have e: "gen_img_effects plain_lib (plain_env [65, 66, 67]) ?S
             [65, 66] \<lparr>rows = 32, cols = 3, px = \<lambda>i j. 240\<rparr> (sconst 0)
           = Inr ((\<lparr>rows = 32, cols = 3, px = \<lambda>i j. 240\<rparr>, [65, 66]), sconst 0)"
    by (simp add: gen_img_effects_def gen_img_noise_def gen_img_blur_def np_clip_def plain_defs)
  show ?thesis by (simp add: gen_img_def w3_pick cm e)
qed

theorem clip_max_chars_label_counterexample:
  "clip_max_chars (plain_renderer False False True 3 32 [])
   \<and> out_width (plain_renderer False False True 3 32 []) = 3
   \<and> max_chars (plain_renderer False False True 3 32 []) = - 1
   \<and> gen_img plain_lib (plain_env [65, 66, 67]) (plain_renderer False False True 3 32 [])
        (sconst 0)
       = Some (Inr ((\<lparr>rows = 32, cols = 3, px = \<lambda>i j. 240\<rparr>, [65, 66]), sconst 0))
   \<and> \<not> int (length [65 :: nat, 66]) \<le> \<lfloor>real_of_int 3 / 4\<rfloor> - 1"
  using w3_gen_img by (simp add: plain_defs)

subsection \<open>The crop rectangle\<close>

lemma np_around_ge: "real_of_int n \<le> x \<Longrightarrow> n \<le> np_around x"
proof -
  assume "real_of_int n \<le> x"
  then have "n \<le> \<lfloor>x\<rfloor>" by (simp add: le_floor_iff)
  moreover have "\<lfloor>x\<rfloor> \<le> np_around x" by (simp add: np_around_def Let_def)
  ultimately show ?thesis by simp
qed

lemma fold_min_le: "fold min xs (a::real) \<le> a"
proof (induction xs arbitrary: a)
  case Nil
  show ?case by simp
next
  case (Cons x xs)
  have "fold min xs (min x a) \<le> min x a" by (rule Cons.IH)
  then show ?case by simp
qed

lemma fold_max_ge: "(a::real) \<le> fold max xs a"
proof (induction xs arbitrary: a)
  case Nil
  show ?case by simp
next
  case (Cons x xs)
  have "max x a \<le> fold max xs (max x a)" by (rule Cons.IH)
  then show ?case by simp
qed

lemma boundingRect_pos:
  assumes "ps \<noteq> []" and "boundingRect ps = (bx, by, bw, bh)"
  shows "1 \<le> bw \<and> 1 \<le> bh"
proof -
  obtain p qs where ps: "ps = p # qs" using assms(1) by (cases ps) auto
  have x: "\<lfloor>fold min (map fst qs) (fst p)\<rfloor> \<le> \<lfloor>fold max (map fst qs) (fst p)\<rfloor>"
    by (intro floor_mono order_trans[OF fold_min_le fold_max_ge])
  have y: "\<lfloor>fold min (map snd qs) (snd p)\<rfloor> \<le> \<lfloor>fold max (map snd qs) (snd p)\<rfloor>"
    by (intro floor_mono order_trans[OF fold_min_le fold_max_ge])
  from assms(2) show ?thesis using x y by (auto simp: ps boundingRect_def Let_def)
qed

lemma boundingRect_Nil: "boundingRect [] = (0, 0, 0, 0)"
  by (simp add: boundingRect_def)

text \<open>What a returned crop rectangle is made of.\<close>

lemma crop_dst_bbox_InrD:
  assumes "crop_dst_bbox out_w out_h ps r = Inr ((x, y, w, h), r')"
  obtains bx "by" bw bh dh r1 sc where
    "boundingRect ps = (bx, by, bw, bh)"
    "crop_dst_height out_h r = Inr (dh, r1)"
    "dh \<noteq> 0" "out_w \<noteq> 0"
    "sc = max (real_of_int bh / real_of_int dh) (real_of_int bw / real_of_int out_w)"
    "sc \<noteq> 0"
    "w = np_around (real_of_int out_w * sc)"
    "h = np_around (real_of_int out_h * sc)"
proof -
  obtain bx "by" bw bh where b: "boundingRect ps = (bx, by, bw, bh)"
    by (cases "boundingRect ps") auto
  from assms show ?thesis
    unfolding crop_dst_bbox_def b
    by (auto simp: Let_def split: sum.splits if_splits prod.splits intro: that[OF b])
qed

lemma crop_dst_height_InrD:
  assumes "crop_dst_height out_h r = Inr (dh, r1)"
  shows "out_h div 4 * 3 \<le> dh \<and> dh \<le> out_h"
proof -
  from assms have le: "out_h div 4 * 3 \<le> out_h"
    by (auto simp: crop_dst_height_def randint_def split: if_splits)
  from randint_Inr[OF le, of r] assms show ?thesis by (auto simp: crop_dst_height_def)
qed

lemma crop_dst_bbox_positive:
  assumes "crop_dst_bbox out_w out_h ps r = Inr ((x, y, w, h), r')"
    and "0 < out_w" and "0 < out_h"
  shows "0 < w \<and> 0 < h"
proof -
  from assms(1) obtain bx "by" bw bh dh r1 sc where
    b: "boundingRect ps = (bx, by, bw, bh)"
    and d: "crop_dst_height out_h r = Inr (dh, r1)"
    and nz: "dh \<noteq> 0"
    and sc: "sc = max (real_of_int bh / real_of_int dh) (real_of_int bw / real_of_int out_w)"
    and scnz: "sc \<noteq> 0"
    and w: "w = np_around (real_of_int out_w * sc)"
    and h: "h = np_around (real_of_int out_h * sc)"
    by (rule crop_dst_bbox_InrD)
  have ne: "ps \<noteq> []"
  proof
    assume "ps = []"
    with b have "bw = 0" "bh = 0" by (simp_all add: boundingRect_Nil)
    with sc scnz show False by simp
  qed
  from boundingRect_pos[OF ne b] have bw: "1 \<le> bw" and bh: "1 \<le> bh" by simp_all
  have "0 \<le> out_h div 4 * 3" using assms(3) by simp
  with crop_dst_height_InrD[OF d] nz have dh: "1 \<le> dh" "dh \<le> out_h" by simp_all
  have rdh: "0 < real_of_int dh" "real_of_int dh \<le> real_of_int out_h" using dh by simp_all
  have row: "0 < real_of_int out_w" using assms(2) by simp
  have "real_of_int bw = real_of_int out_w * (real_of_int bw / real_of_int out_w)"
    using row by simp
  also have "\<dots> \<le> real_of_int out_w * sc"
    unfolding sc using row by (intro mult_left_mono) simp_all
  finally have "real_of_int bw \<le> real_of_int out_w * sc" .
  then have ww: "bw \<le> w" unfolding w by (rule np_around_ge)
  have "real_of_int bh = real_of_int dh * (real_of_int bh / real_of_int dh)"
    using rdh by simp
  also have "\<dots> \<le> real_of_int out_h * (real_of_int bh / real_of_int dh)"
    using rdh bh by (intro mult_right_mono) simp_all
  also have "\<dots> \<le> real_of_int out_h * sc"
    unfolding sc using assms(3) by (intro mult_left_mono) simp_all
  finally have "real_of_int bh \<le> real_of_int out_h * sc" .
  then have hh: "bh \<le> h" unfolding h by (rule np_around_ge)
  show ?thesis using ww hh bw bh by linarith
qed

lemma crop_img_InrD:
  assumes "crop_img lib self img ps r = Inr ((dst, bb), r')"
  shows "crop_dst_bbox (out_width self) (out_height self) ps r = Inr (bb, r')
     \<and> 0 < out_width self \<and> 0 < out_height self
     \<and> int (rows dst) = out_height self \<and> int (cols dst) = out_width self
     \<and> 0 < rows (slice2 img (fst (snd bb)) (fst (snd bb) + snd (snd (snd bb)))
                    (fst bb) (fst bb + fst (snd (snd bb))))
     \<and> 0 < cols (slice2 img (fst (snd bb)) (fst (snd bb) + snd (snd (snd bb)))
                    (fst bb) (fst bb + fst (snd (snd bb))))"
  using assms
  by (auto simp: crop_img_def cv_resize_def split: sum.splits prod.splits if_splits)

lemma random_xy_offset_Inr:
  "\<exists>xo yo r'. random_xy_offset sh sw dh dw r = Inr ((xo, yo), r')
      \<and> 0 \<le> xo \<and> xo \<le> max 0 (dw - sw) \<and> 0 \<le> yo \<and> yo \<le> max 0 (dh - sh)"
proof -
  obtain yo r1 where y:
    "(if dh > sh then randint 0 (dh - sh) r else Inr (0, r)) = Inr (yo, r1)"
    "0 \<le> yo" "yo \<le> max 0 (dh - sh)"
  proof (cases "dh > sh")
    case True
    then have "(0::int) \<le> dh - sh" by simp
    from randint_Inr[OF this, of r] True show ?thesis by (auto intro: that)
  next
    case False
    then show ?thesis by (auto intro: that[of 0 r])
  qed
  obtain xo r2 where x:
    "(if dw > sw then randint 0 (dw - sw) r1 else Inr (0, r1)) = Inr (xo, r2)"
    "0 \<le> xo" "xo \<le> max 0 (dw - sw)"
  proof (cases "dw > sw")
    case True
    then have "(0::int) \<le> dw - sw" by simp
    from randint_Inr[OF this, of r1] True show ?thesis by (auto intro: that)
  next
    case False
    then show ?thesis by (auto intro: that[of 0 r1])
  qed
  have "random_xy_offset sh sw dh dw r = Inr ((xo, yo), r2)"
  proof (cases "dh > sh")
    case h: True
    show ?thesis
    proof (cases "dw > sw")
      case True
      with h x(1) y(1) show ?thesis by (simp add: random_xy_offset_def)
    next
      case False
      with h x(1) y(1) show ?thesis by (simp add: random_xy_offset_def)
    qed
  next
    case h: False
    show ?thesis
    proof (cases "dw > sw")
      case True
      with h x(1) y(1) show ?thesis by (simp add: random_xy_offset_def)
    next
      case False
      with h x(1) y(1) show ?thesis by (simp add: random_xy_offset_def)
    qed
  qed
  then show ?thesis using x(2,3) y(2,3) by blast
qed

lemma crop_dst_bbox_total:
  assumes "0 < out_w" and "4 \<le> out_h" and "ps \<noteq> []"
  shows "\<exists>x y w h r1. crop_dst_bbox out_w out_h ps r = Inr ((x, y, w, h), r1)"
proof -
  obtain bx "by" bw bh where b: "boundingRect ps = (bx, by, bw, bh)"
    by (cases "boundingRect ps") auto
  from boundingRect_pos[OF assms(3) b] have bh: "1 \<le> bh" by simp
  have "0 < out_h" using assms(2) by simp
  from crop_dst_height_Inr[OF this, of r] obtain dh where
    d: "crop_dst_height out_h r = Inr (dh, stl r)" "out_h div 4 * 3 \<le> dh" by blast
  have "4 div 4 \<le> out_h div 4" using assms(2) by (intro zdiv_mono1) simp_all
  then have "3 \<le> out_h div 4 * 3" by simp
  with d(2) have dh: "0 < dh" by linarith
  define sc where "sc = max (real_of_int bh / real_of_int dh) (real_of_int bw / real_of_int out_w)"
  have "0 < real_of_int bh / real_of_int dh" using bh dh by simp
  then have sc: "sc \<noteq> 0" unfolding sc_def by linarith
  obtain xo yo r2 where
    "random_xy_offset \<lceil>real_of_int bh / sc\<rceil> \<lceil>real_of_int bw / sc\<rceil> out_h out_w (stl r)
       = Inr ((xo, yo), r2)"
    using random_xy_offset_Inr by blast
  then show ?thesis
    unfolding crop_dst_bbox_def b using d(1) dh assms(1) sc
    by (simp add: Let_def sc_def[symmetric])
qed

lemma slice_nonempty:
  assumes "0 \<le> a" and "a < int n" and "0 < len"
  shows "0 < slice_index (a + len) n - slice_index a n"
  using assms by (auto simp: slice_index_def min_def)






text \<open>
  What \<^verbatim>\<open>crop_img\<close> returns has exactly \<open>out_height\<close> rows and \<open>out_width\<close>
  columns. For a positive output width, an output height of at least 4 and a text
  quadrilateral, the crop rectangle is always computed; \<^verbatim>\<open>crop_img\<close> then raises
  (\<^verbatim>\<open>cv2.resize\<close> on an empty array) when the slice of the rectangle on the raster is
  empty, and returns otherwise, in particular whenever the left-top corner of the rectangle
  is inside the raster.
\<close>

lemma crop_img_size:
  "(crop_img lib self img ps r = Inr ((dst, bb), r') \<longrightarrow>
      int (rows dst) = out_height self \<and> int (cols dst) = out_width self)
   \<and> (0 < out_width self \<and> 4 \<le> out_height self \<and> ps \<noteq> [] \<longrightarrow>
        (\<exists>x y w h r1.
           crop_dst_bbox (out_width self) (out_height self) ps r = Inr ((x, y, w, h), r1)
           \<and> (if rows (slice2 img y (y + h) x (x + w)) = 0
                   \<or> cols (slice2 img y (y + h) x (x + w)) = 0
                then crop_img lib self img ps r = Inl CvError
                else (\<exists>d. crop_img lib self img ps r = Inr ((d, (x, y, w, h)), r1)
                          \<and> int (rows d) = out_height self
                          \<and> int (cols d) = out_width self))
           \<and> (0 \<le> x \<and> x < int (cols img) \<and> 0 \<le> y \<and> y < int (rows img) \<longrightarrow>
                  0 < rows (slice2 img y (y + h) x (x + w))
                  \<and> 0 < cols (slice2 img y (y + h) x (x + w)))))"
proof (rule conjI; rule impI)
  assume "crop_img lib self img ps r = Inr ((dst, bb), r')"
  from crop_img_InrD[OF this]
  show "int (rows dst) = out_height self \<and> int (cols dst) = out_width self" by simp
next
  assume a: "0 < out_width self \<and> 4 \<le> out_height self \<and> ps \<noteq> []"
  then have o: "0 < out_width self" "0 < out_height self" by simp_all
  from a crop_dst_bbox_total[of "out_width self" "out_height self" ps r]
  obtain x y w h r1 where
    c: "crop_dst_bbox (out_width self) (out_height self) ps r = Inr ((x, y, w, h), r1)"
    by blast
  from crop_dst_bbox_positive[OF c o] have p: "0 < w" "0 < h" by simp_all
  have e: "crop_img lib self img ps r = Inl CvError"
    if "rows (slice2 img y (y + h) x (x + w)) = 0 \<or> cols (slice2 img y (y + h) x (x + w)) = 0"
    using that c by (auto simp: crop_img_def cv_resize_def)
  have n: "\<exists>d. crop_img lib self img ps r = Inr ((d, (x, y, w, h)), r1)
              \<and> int (rows d) = out_height self \<and> int (cols d) = out_width self"
    if "\<not> (rows (slice2 img y (y + h) x (x + w)) = 0
           \<or> cols (slice2 img y (y + h) x (x + w)) = 0)"
    using that c o by (auto simp: crop_img_def cv_resize_def)
  have i: "0 < rows (slice2 img y (y + h) x (x + w)) \<and> 0 < cols (slice2 img y (y + h) x (x + w))"
    if "0 \<le> x \<and> x < int (cols img) \<and> 0 \<le> y \<and> y < int (rows img)"
    using that p slice_nonempty[of y "rows img" h] slice_nonempty[of x "cols img" w]
    by (simp add: slice2_def Let_def)
  show "\<exists>x y w h r1.
           crop_dst_bbox (out_width self) (out_height self) ps r = Inr ((x, y, w, h), r1)
           \<and> (if rows (slice2 img y (y + h) x (x + w)) = 0
                   \<or> cols (slice2 img y (y + h) x (x + w)) = 0
                then crop_img lib self img ps r = Inl CvError
                else (\<exists>d. crop_img lib self img ps r = Inr ((d, (x, y, w, h)), r1)
                          \<and> int (rows d) = out_height self
                          \<and> int (cols d) = out_width self))
           \<and> (0 \<le> x \<and> x < int (cols img) \<and> 0 \<le> y \<and> y < int (rows img) \<longrightarrow>
                  0 < rows (slice2 img y (y + h) x (x + w))
                  \<and> 0 < cols (slice2 img y (y + h) x (x + w)))"
    using c e n i by (intro exI[of _ x] exI[of _ y] exI[of _ w] exI[of _ h] exI[of _ r1]) auto
qed

lemma w_crop_left:
  "crop_dst_bbox 32 32 [(- 8, 0), (23, 0), (23, 31), (- 8, 31)] (sconst 8)
     = Inr ((- 8, 0, 32, 32), sconst 8)"
proof -
  have b: "boundingRect [(- 8, 0), (23, 0), (23, 31), (- 8, 31)] = (- 8, 0, 32, 32)"
    by (simp add: boundingRect_def)
  show ?thesis
    unfolding crop_dst_bbox_def b
    by (simp add: crop_dst_height_def randint_def random_xy_offset_def np_around_def Let_def)
qed

lemma w_crop_right:
  "crop_dst_bbox 32 32 [(40, 0), (71, 0), (71, 31), (40, 31)] (sconst 8)
     = Inr ((40, 0, 32, 32), sconst 8)"
proof -
  have b: "boundingRect [(40, 0), (71, 0), (71, 31), (40, 31)] = (40, 0, 32, 32)"
    by (simp add: boundingRect_def)
  show ?thesis
    unfolding crop_dst_bbox_def b
    by (simp add: crop_dst_height_def randint_def random_xy_offset_def np_around_def Let_def)
qed

text \<open>
  Claim C2, at an input where the code does not do what the claim says. On a 64 by 64
  raster with the output size 32 by 32, a text box that reaches 8 pixels beyond the left
  edge has the crop rectangle \<open>(-8, 0, 32, 32)\<close>: the column slice \<^verbatim>\<open>[-8:24]\<close> wraps
  to \<^verbatim>\<open>[56:24]\<close>, is empty, and \<^verbatim>\<open>cv2.resize\<close> raises. The same box 8 pixels beyond
  the right edge has the rectangle \<open>(40, 0, 32, 32)\<close>: the slice \<^verbatim>\<open>[40:72]\<close> is clamped
  to the raster and a raster of exactly 32 by 32 is returned.
\<close>

theorem crop_img_left_overflow_raises:
  "crop_img plain_lib (plain_renderer False False False 32 32 [])
      \<lparr>rows = 64, cols = 64, px = \<lambda>i j. 240\<rparr>
      [(- 8, 0), (23, 0), (23, 31), (- 8, 31)] (sconst 8) = Inl CvError
   \<and> crop_dst_bbox 32 32 [(- 8, 0), (23, 0), (23, 31), (- 8, 31)] (sconst 8)
        = Inr ((- 8, 0, 32, 32), sconst 8)
   \<and> cols (slice2 \<lparr>rows = 64, cols = 64, px = \<lambda>i j. 240\<rparr> 0 (0 + 32) (- 8) (- 8 + 32)) = 0
   \<and> crop_img plain_lib (plain_renderer False False False 32 32 [])
        \<lparr>rows = 64, cols = 64, px = \<lambda>i j. 240\<rparr>
        [(40, 0), (71, 0), (71, 31), (40, 31)] (sconst 8)
       = Inr ((\<lparr>rows = 32, cols = 32, px = \<lambda>i j. 240\<rparr>, (40, 0, 32, 32)), sconst 8)
   \<and> cols (slice2 \<lparr>rows = 64, cols = 64, px = \<lambda>i j. 240\<rparr> 0 (0 + 32) 40 (40 + 32)) = 24"
proof -
  have o: "out_width (plain_renderer False False False 32 32 []) = 32"
    "out_height (plain_renderer False False False 32 32 []) = 32"
    by (simp_all add: plain_defs)
  have l: "crop_img plain_lib (plain_renderer False False False 32 32 [])
      \<lparr>rows = 64, cols = 64, px = \<lambda>i j. 240\<rparr>
      [(- 8, 0), (23, 0), (23, 31), (- 8, 31)] (sconst 8) = Inl CvError"
    unfolding crop_img_def o w_crop_left
    by (simp add: cv_resize_def slice2_def slice_index_def)
  have r: "crop_img plain_lib (plain_renderer False False False 32 32 [])
        \<lparr>rows = 64, cols = 64, px = \<lambda>i j. 240\<rparr>
        [(40, 0), (71, 0), (71, 31), (40, 31)] (sconst 8)
       = Inr ((\<lparr>rows = 32, cols = 32, px = \<lambda>i j. 240\<rparr>, (40, 0, 32, 32)), sconst 8)"
    unfolding crop_img_def o w_crop_right
    by (simp add: cv_resize_def slice2_def slice_index_def plain_lib_def)
  show ?thesis using l r w_crop_left by (simp add: slice2_def slice_index_def)
qed

text \<open>
  A negative origin can also wrap to a slice that is not empty. A text box from 8 pixels left
  of the 64 by 64 raster to its right edge has the crop rectangle \<open>(-9, 0, 72, 72)\<close>; the
  column slice \<^verbatim>\<open>[-9:63]\<close> is \<^verbatim>\<open>[55:63]\<close>, and the raster that is returned is made
  of the 8 columns at the right edge.
\<close>

lemma crop_img_wrapped_strip:
  "crop_img plain_lib (plain_renderer False False False 32 32 [])
      \<lparr>rows = 64, cols = 64, px = \<lambda>i j. 240\<rparr>
      [(- 8, 0), (63, 0), (63, 71), (- 8, 71)] (sconst 8)
     = Inr ((\<lparr>rows = 32, cols = 32, px = \<lambda>i j. 240\<rparr>, (- 9, 0, 72, 72)), sconst 8)
   \<and> slice_index (- 9) 64 = 55 \<and> slice_index (- 9 + 72) 64 = 63"
proof -
  have o: "out_width (plain_renderer False False False 32 32 []) = 32"
    "out_height (plain_renderer False False False 32 32 []) = 32"
    by (simp_all add: plain_defs)
  have b: "boundingRect [(- 8, 0), (63, 0), (63, 71), (- 8, 71)] = (- 8, 0, 72, 72)"
    by (simp add: boundingRect_def)
  have c: "crop_dst_bbox 32 32 [(- 8, 0), (63, 0), (63, 71), (- 8, 71)] (sconst 8)
             = Inr ((- 9, 0, 72, 72), sconst 8)"
    unfolding crop_dst_bbox_def b
    by (simp add: crop_dst_height_def randint_def random_xy_offset_def np_around_def Let_def)
  show ?thesis
    unfolding crop_img_def o c
    by (simp add: cv_resize_def slice2_def slice_index_def plain_lib_def)
qed

subsection \<open>The scale of the stock background\<close>

lemma cv_resize_scale_covers:
  assumes "0 < rows bg" and "0 < cols bg" and "0 < height" and "height < width"
  shows "\<exists>out. cv_resize_scale lib bg (bg_scale width height bg) (bg_scale width height bg)
                  = Inr out
            \<and> width \<le> int (cols out) \<and> height \<le> int (rows out)"
proof -
  let ?s = "bg_scale width height bg"
  have rc: "0 < real (rows bg)" "0 < real (cols bg)" using assms(1,2) by simp_all
  have "0 < real_of_int height / real (rows bg)" using assms(3) rc by simp
  then have pos: "0 < ?s" unfolding bg_scale_def by linarith
  have "real_of_int width = real (cols bg) * (real_of_int width / real (cols bg))"
    using rc by simp
  also have "\<dots> \<le> real (cols bg) * ?s"
    unfolding bg_scale_def by (intro mult_left_mono) simp_all
  finally have "real_of_int width \<le> real (cols bg) * ?s" .
  then have w: "width \<le> np_around (real (cols bg) * ?s)" by (rule np_around_ge)
  have "real_of_int height = real (rows bg) * (real_of_int height / real (rows bg))"
    using rc by simp
  also have "\<dots> \<le> real (rows bg) * ?s"
    unfolding bg_scale_def by (intro mult_left_mono) simp_all
  finally have "real_of_int height \<le> real (rows bg) * ?s" .
  then have h: "height \<le> np_around (real (rows bg) * ?s)" by (rule np_around_ge)
  show ?thesis
    using assms pos w h by (simp add: cv_resize_scale_def cv_resize_def)
qed

text \<open>
  Claim C5, as the code has it. For a stock image with positive sides and a target with
  \<open>0 < height < width\<close>, the resize factor is positive, the same on both axes, and after
  the resize both sides are at least the target. The factor is at least 1 exactly when the
  stock image is not larger than the target in some dimension; a stock image larger than the
  target in both is scaled down.
\<close>

theorem gen_bg_from_image_scale:
  assumes "0 < rows bg" and "0 < cols bg" and "0 < height" and "height < width"
  shows "0 < bg_scale width height bg
     \<and> (1 \<le> bg_scale width height bg
            \<longleftrightarrow> int (cols bg) \<le> width \<or> int (rows bg) \<le> height)
     \<and> (\<exists>out. cv_resize_scale lib bg (bg_scale width height bg) (bg_scale width height bg)
                  = Inr out
            \<and> width \<le> int (cols out) \<and> height \<le> int (rows out))"
proof -
  have rc: "0 < real (rows bg)" "0 < real (cols bg)" using assms(1,2) by simp_all
  have "0 < real_of_int height / real (rows bg)" using assms(3) rc by simp
  then have pos: "0 < bg_scale width height bg" unfolding bg_scale_def by linarith
  have a: "1 \<le> real_of_int width / real (cols bg) \<longleftrightarrow> int (cols bg) \<le> width"
    using rc by (simp add: le_divide_eq) linarith
  have b: "1 \<le> real_of_int height / real (rows bg) \<longleftrightarrow> int (rows bg) \<le> height"
    using rc by (simp add: le_divide_eq) linarith
  have "1 \<le> bg_scale width height bg
          \<longleftrightarrow> int (cols bg) \<le> width \<or> int (rows bg) \<le> height"
    unfolding bg_scale_def le_max_iff_disj a b by simp
  then show ?thesis using pos cv_resize_scale_covers[OF assms] by simp
qed

lemma w_stock_scale: "bg_scale 256 128 stock = 1 / 2"
  by (simp add: bg_scale_def stock_def)

lemma w_stock_resize:
  "cv_resize_scale plain_lib stock (1 / 2) (1 / 2)
     = Inr \<lparr>rows = 256, cols = 256, px = \<lambda>i j. 128\<rparr>"
  by (simp add: cv_resize_scale_def cv_resize_def np_around_def stock_def plain_lib_def Let_def)

lemma w_mean: "np_mean \<lparr>rows = 128, cols = 256, px = \<lambda>i j. 128\<rparr> = 128"
  by (simp add: np_mean_def)

lemma w_stock_bg:
  "gen_bg_from_image plain_lib (plain_renderer False False False 100 32 [stock]) 256 128
      (sconst 0)
     = Inr (\<lparr>rows = 128, cols = 256, px = \<lambda>i j. 255\<rparr>, sconst 0)"
proof -
  have b: "bgs (plain_renderer False False False 100 32 [stock]) = [stock]"
    by (simp add: plain_defs)
  have c: "choice [stock] (sconst 0) = Inr (stock, sconst 0)" by (simp add: choice_def)
  have d: "cols stock \<noteq> 0" "rows stock \<noteq> 0" by (simp_all add: stock_def)
  have o: "random_xy_offset 128 256 256 256 (sconst 0) = Inr ((0, 0), sconst 0)"
    by (simp add: random_xy_offset_def randint_def)
  have s: "slice2 \<lparr>rows = 256, cols = 256, px = \<lambda>i j. 128\<rparr> 0 128 0 256
             = \<lparr>rows = 128, cols = 256, px = \<lambda>i j. 128\<rparr>"
    by (simp add: slice2_def slice_index_def)
  have g: "apply_gauss_blur plain_lib \<lparr>rows = 128, cols = 256, px = \<lambda>i j. 128\<rparr>
             (Some [7, 11, 13, 15, 17]) (sconst 0)
           = Inr (\<lparr>rows = 128, cols = 256, px = \<lambda>i j. 128\<rparr>, sconst 0)"
    by (simp add: apply_gauss_blur_def choice_def GaussianBlur_def plain_lib_def)
  have n: "np_randint 64 128 (sconst 0) = Inr (64, sconst 0)"
    by (simp add: np_randint_def)
  show ?thesis
    unfolding gen_bg_from_image_def b c
    by (simp add: d w_stock_scale w_stock_resize o s g w_mean py_int_def n np_clip_def
          np_uint8_def)
qed

theorem gen_bg_from_image_scale_witness:
  "0 < rows stock \<and> 0 < cols stock \<and> (0::int) < 128 \<and> (128::int) < 256
   \<and> 0 < bg_scale 256 128 stock
   \<and> (\<exists>out. cv_resize_scale plain_lib stock (bg_scale 256 128 stock) (bg_scale 256 128 stock)
                  = Inr out
            \<and> 256 \<le> int (cols out) \<and> 128 \<le> int (rows out))"
proof -
  have h: "0 < rows stock" "0 < cols stock" "(0::int) < 128" "(128::int) < 256"
    by (simp_all add: stock_def)
  from gen_bg_from_image_scale[OF h, of plain_lib] h show ?thesis by blast
qed

text \<open>
  A 512 by 512 stock image and the target 256 by 128: the factor is 1/2, the image is
  scaled down to 256 by 256, and \<^verbatim>\<open>gen_bg_from_image\<close> returns a 256 by 128 raster.
\<close>

theorem gen_bg_from_image_scale_counterexample:
  "bg_scale 256 128 stock = 1 / 2
   \<and> \<not> 1 \<le> bg_scale 256 128 stock
   \<and> cv_resize_scale plain_lib stock (bg_scale 256 128 stock) (bg_scale 256 128 stock)
       = Inr \<lparr>rows = 256, cols = 256, px = \<lambda>i j. 128\<rparr>
   \<and> rows stock = 512 \<and> cols stock = 512
   \<and> gen_bg_from_image plain_lib (plain_renderer False False False 100 32 [stock]) 256 128
        (sconst 0)
       = Inr (\<lparr>rows = 128, cols = 256, px = \<lambda>i j. 255\<rparr>, sconst 0)"
proof -
  have r: "rows stock = 512" "cols stock = 512" by (simp_all add: stock_def)
  show ?thesis unfolding w_stock_scale using w_stock_bg w_stock_resize r by simp
qed

subsection \<open>The size of the stock background\<close>

lemma slice_index_le: "slice_index i n \<le> n"
  by (auto simp: slice_index_def max_def)

lemma slice_exact:
  assumes "0 \<le> a" and "0 \<le> len" and "a + len \<le> int n"
  shows "slice_index (a + len) n - slice_index a n = nat len"
  using assms by (auto simp: slice_index_def min_def)

lemma bright_slice2: "bright img \<Longrightarrow> bright (slice2 img y0 y1 x0 x1)"
proof -
  assume b: "bright img"
  have "1 \<le> px img (slice_index y0 (rows img) + i) (slice_index x0 (cols img) + j)"
    if "i < slice_index y1 (rows img) - slice_index y0 (rows img)"
      and "j < slice_index x1 (cols img) - slice_index x0 (cols img)" for i j
  proof -
    have "slice_index y0 (rows img) + i < slice_index y1 (rows img)" using that(1) by simp
    then have i: "slice_index y0 (rows img) + i < rows img"
      using slice_index_le[of y1 "rows img"] by simp
    have "slice_index x0 (cols img) + j < slice_index x1 (cols img)" using that(2) by simp
    then have j: "slice_index x0 (cols img) + j < cols img"
      using slice_index_le[of x1 "cols img"] by simp
    from b i j show ?thesis by (simp add: bright_def)
  qed
  then show ?thesis by (simp add: bright_def slice2_def Let_def)
qed

lemma np_mean_ge:
  assumes "0 < rows img" and "0 < cols img" and "bright img"
  shows "1 \<le> np_mean img"
proof -
  have "(\<Sum>i<rows img. \<Sum>j<cols img. (1::real)) \<le> (\<Sum>i<rows img. \<Sum>j<cols img. px img i j)"
    using assms(3) by (intro sum_mono) (simp add: bright_def)
  then have "real (rows img * cols img) \<le> (\<Sum>i<rows img. \<Sum>j<cols img. px img i j)"
    by simp
  moreover have "0 < real (rows img * cols img)" using assms(1,2) by simp
  ultimately show ?thesis by (simp add: np_mean_def le_divide_eq)
qed

lemma choice_Inr:
  "xs \<noteq> [] \<Longrightarrow> \<exists>x. choice xs r = Inr (x, stl r) \<and> x \<in> set xs"
  by (simp add: choice_def)

lemma choice_InrD: "choice xs r = Inr (x, r') \<Longrightarrow> x \<in> set xs \<and> r' = stl r"
  by (auto simp: choice_def split: if_splits)

lemma apply_gauss_blur_stock:
  assumes "0 < rows img" and "0 < cols img"
  shows "\<exists>k. apply_gauss_blur lib img (Some [7, 11, 13, 15, 17]) r
               = Inr (img\<lparr>px := gauss_px lib img k 0\<rparr>, stl r)"
proof -
  from choice_Inr[of "[7, 11, 13, 15, 17 :: int]" r] obtain k where
    k: "choice [7, 11, 13, 15, 17 :: int] r = Inr (k, stl r)" "k \<in> set [7, 11, 13, 15, 17]"
    by auto
  from k(2) have "\<not> k \<le> 3" "\<not> k \<le> 0" "odd k" by auto
  then show ?thesis using assms k(1)
    by (intro exI[of _ k]) (simp add: apply_gauss_blur_def GaussianBlur_def)
qed

lemma apply_gauss_blur_InrD:
  assumes "apply_gauss_blur lib img ks r = Inr (out, r')"
  shows "rows out = rows img \<and> cols out = cols img \<and> 0 < rows img \<and> 0 < cols img"
  using assms
  by (auto simp: apply_gauss_blur_def GaussianBlur_def split: sum.splits if_splits prod.splits)

lemma cv_resize_scale_form:
  assumes "cv_resize_scale lib src fx fy = Inr out"
  shows "\<exists>h w. out = \<lparr>rows = h, cols = w, px = resize_px lib INTER_LINEAR src h w\<rparr>"
  using assms by (auto simp: cv_resize_scale_def cv_resize_def split: if_splits)

lemma gen_bg_from_image_asserts:
  "width \<le> height \<Longrightarrow> gen_bg_from_image lib self width height r = Inl AssertionError"
  by (simp add: gen_bg_from_image_def)

lemma gen_bg_from_image_returns:
  assumes wh: "0 < height" "height < width"
    and ne: "bgs self \<noteq> []"
    and pool: "\<forall>bg\<in>set (bgs self). 0 < rows bg \<and> 0 < cols bg \<and> bright bg"
    and kb: "keeps_bright lib"
  shows "\<exists>out r'. gen_bg_from_image lib self width height r = Inr (out, r')
           \<and> int (rows out) = height \<and> int (cols out) = width"
proof -
  from choice_Inr[OF ne, of r] obtain bg where
    c: "choice (bgs self) r = Inr (bg, stl r)" and bg: "bg \<in> set (bgs self)" by blast
  from pool bg have pos: "0 < rows bg" "0 < cols bg" and bb: "bright bg" by auto
  from cv_resize_scale_covers[OF pos wh, of lib] obtain out0 where
    rs: "cv_resize_scale lib bg (bg_scale width height bg) (bg_scale width height bg) = Inr out0"
    and big: "width \<le> int (cols out0)" "height \<le> int (rows out0)" by blast
  from cv_resize_scale_form[OF rs] kb bb pos have b0: "bright out0"
    by (auto simp: keeps_bright_def)
  from random_xy_offset_Inr[of height width "int (rows out0)" "int (cols out0)" "stl r"]
  obtain xo yo r2 where
    xy: "random_xy_offset height width (int (rows out0)) (int (cols out0)) (stl r)
           = Inr ((xo, yo), r2)"
    and xo: "0 \<le> xo" "xo \<le> max 0 (int (cols out0) - width)"
    and yo: "0 \<le> yo" "yo \<le> max 0 (int (rows out0) - height)" by blast
  define sl where "sl = slice2 out0 yo (yo + height) xo (xo + width)"
  have "yo + height \<le> int (rows out0)" using yo big by simp
  from slice_exact[OF yo(1) _ this] wh have sr: "rows sl = nat height"
    by (simp add: sl_def slice2_def Let_def)
  have "xo + width \<le> int (cols out0)" using xo big by simp
  from slice_exact[OF xo(1) _ this] wh have sc: "cols sl = nat width"
    by (simp add: sl_def slice2_def Let_def)
  have bs: "bright sl" unfolding sl_def using b0 by (rule bright_slice2)
  have sp: "0 < rows sl" "0 < cols sl" using sr sc wh by simp_all
  from apply_gauss_blur_stock[OF sp, of lib r2] obtain k where
    gb: "apply_gauss_blur lib sl (Some [7, 11, 13, 15, 17]) r2
           = Inr (sl\<lparr>px := gauss_px lib sl k 0\<rparr>, stl r2)" by blast
  define out2 where "out2 = sl\<lparr>px := gauss_px lib sl k 0\<rparr>"
  have o2: "rows out2 = nat height" "cols out2 = nat width" by (simp_all add: out2_def sr sc)
  have b2: "bright out2" unfolding out2_def using kb bs sp by (simp add: keeps_bright_def)
  have "1 \<le> np_mean out2" using o2 wh b2 by (intro np_mean_ge) simp_all
  then have "1 \<le> \<lfloor>np_mean out2\<rfloor>" by (simp add: le_floor_iff)
  moreover have "py_int (np_mean out2) = \<lfloor>np_mean out2\<rfloor>"
    using \<open>1 \<le> np_mean out2\<close> by (simp add: py_int_def)
  ultimately have m: "1 \<le> py_int (np_mean out2)" by simp
  then have "\<not> py_int (np_mean out2) \<le> py_int (np_mean out2) div 2" by linarith
  then obtain beta r4 where
    nr: "np_randint (py_int (np_mean out2) div 2) (py_int (np_mean out2)) (stl r2)
           = Inr (beta, r4)"
    by (simp add: np_randint_def)
  have nz: "rows out2 * cols out2 \<noteq> 0" "py_int (np_mean out2) \<noteq> 0"
    using o2 wh m by simp_all
  have z: "cols bg \<noteq> 0" "rows bg \<noteq> 0" "width > height" using pos wh by simp_all
  have "gen_bg_from_image lib self width height r
          = Inr (np_uint8 (np_clip
                   (out2\<lparr>px := \<lambda>i j. 255 / real_of_int (py_int (np_mean out2)) * px out2 i j
                                     + real_of_int beta\<rparr>) 0 255), r4)"
    unfolding gen_bg_from_image_def
    using z c rs xy gb[unfolded sl_def] nz nr
    by (simp add: Let_def out2_def[symmetric] sl_def[symmetric])
  then show ?thesis using o2 wh by (simp add: np_uint8_def np_clip_def)
qed

lemma gen_bg_from_image_InrD:
  assumes "gen_bg_from_image lib self width height r = Inr (out, r')"
  obtains bg r1 out0 xo yo r2 out2 r3 where
    "height < width"
    "choice (bgs self) r = Inr (bg, r1)"
    "cols bg \<noteq> 0" "rows bg \<noteq> 0"
    "cv_resize_scale lib bg (bg_scale width height bg) (bg_scale width height bg) = Inr out0"
    "random_xy_offset height width (int (rows out0)) (int (cols out0)) r1 = Inr ((xo, yo), r2)"
    "apply_gauss_blur lib (slice2 out0 yo (yo + height) xo (xo + width))
       (Some [7, 11, 13, 15, 17]) r2 = Inr (out2, r3)"
    "rows out = rows out2" "cols out = cols out2"
  using assms
  by (auto simp: gen_bg_from_image_def Let_def np_uint8_def np_clip_def
           split: sum.splits if_splits prod.splits)

lemma gen_bg_from_image_dims:
  assumes "gen_bg_from_image lib self width height r = Inr (out, r')" and "0 < height"
  shows "height < width \<and> int (rows out) = height \<and> int (cols out) = width"
proof -
  from assms(1) obtain bg r1 out0 xo yo r2 out2 r3 where
    wh: "height < width"
    and z: "cols bg \<noteq> 0" "rows bg \<noteq> 0"
    and rs: "cv_resize_scale lib bg (bg_scale width height bg) (bg_scale width height bg)
               = Inr out0"
    and xy: "random_xy_offset height width (int (rows out0)) (int (cols out0)) r1
               = Inr ((xo, yo), r2)"
    and gb: "apply_gauss_blur lib (slice2 out0 yo (yo + height) xo (xo + width))
               (Some [7, 11, 13, 15, 17]) r2 = Inr (out2, r3)"
    and o: "rows out = rows out2" "cols out = cols out2"
    by (rule gen_bg_from_image_InrD)
  have pos: "0 < rows bg" "0 < cols bg" using z by simp_all
  from cv_resize_scale_covers[OF pos assms(2) wh, of lib] rs
  have big: "width \<le> int (cols out0)" "height \<le> int (rows out0)" by simp_all
  from random_xy_offset_Inr[of height width "int (rows out0)" "int (cols out0)" r1] xy
  have xo: "0 \<le> xo" "xo \<le> max 0 (int (cols out0) - width)"
    and yo: "0 \<le> yo" "yo \<le> max 0 (int (rows out0) - height)" by simp_all
  have "yo + height \<le> int (rows out0)" using yo big by simp
  from slice_exact[OF yo(1) _ this] assms(2)
  have sr: "rows (slice2 out0 yo (yo + height) xo (xo + width)) = nat height"
    by (simp add: slice2_def Let_def)
  have "xo + width \<le> int (cols out0)" using xo big by simp
  from slice_exact[OF xo(1) _ this] assms(2) wh
  have sc: "cols (slice2 out0 yo (yo + height) xo (xo + width)) = nat width"
    by (simp add: slice2_def Let_def)
  from apply_gauss_blur_InrD[OF gb] sr sc o assms(2) wh show ?thesis by simp
qed

text \<open>
  Claim C4, as the code has it. A request with \<open>width \<le> height\<close> fails on the
  assertion. A raster returned for a request of positive height has \<open>height < width\<close>
  and exactly the requested \<open>height\<close> rows and \<open>width\<close> columns. The raster is
  returned for every request \<open>0 < height < width\<close> when the pool is not empty and its
  images are not empty and nowhere black; it is not returned for every request with
  \<open>width > height\<close>.
\<close>

theorem gen_bg_from_image_size:
  "(width \<le> height \<longrightarrow> gen_bg_from_image lib self width height r = Inl AssertionError)
   \<and> (0 < height \<and> gen_bg_from_image lib self width height r = Inr (out, r') \<longrightarrow>
         height < width \<and> int (rows out) = height \<and> int (cols out) = width)
   \<and> (0 < height \<and> height < width \<and> bgs self \<noteq> []
        \<and> (\<forall>bg\<in>set (bgs self). 0 < rows bg \<and> 0 < cols bg \<and> bright bg)
        \<and> keeps_bright lib \<longrightarrow>
         (\<exists>out r'. gen_bg_from_image lib self width height r = Inr (out, r')
            \<and> int (rows out) = height \<and> int (cols out) = width))"
  using gen_bg_from_image_asserts[of width height lib self r]
    gen_bg_from_image_dims[of lib self width height r out r']
    gen_bg_from_image_returns[of height width self lib r]
  by blast

lemma keeps_bright_plain_lib: "keeps_bright plain_lib"
proof -
  have "1 \<le> px src 0 0" if "0 < rows src" "0 < cols src" "bright src" for src
    using that by (simp add: bright_def)
  then show ?thesis by (simp add: keeps_bright_def plain_lib_def bright_def)
qed

lemma bright_stock: "bright stock"
  by (simp add: bright_def stock_def)

theorem gen_bg_from_image_size_witness:
  "(128::int) \<le> 256
   \<and> gen_bg_from_image plain_lib (plain_renderer False False False 100 32 [stock]) 128 256
        (sconst 0) = Inl AssertionError
   \<and> (0::int) < 128 \<and> (128::int) < 256
   \<and> bgs (plain_renderer False False False 100 32 [stock]) = [stock]
   \<and> 0 < rows stock \<and> 0 < cols stock \<and> bright stock \<and> keeps_bright plain_lib
   \<and> gen_bg_from_image plain_lib (plain_renderer False False False 100 32 [stock]) 256 128
        (sconst 0) = Inr (\<lparr>rows = 128, cols = 256, px = \<lambda>i j. 255\<rparr>, sconst 0)
   \<and> int (rows \<lparr>rows = 128, cols = 256, px = \<lambda>i j. 255\<rparr>) = 128
   \<and> int (cols \<lparr>rows = 128, cols = 256, px = \<lambda>i j. 255\<rparr>) = 256"
proof -
  let ?S = "plain_renderer False False False 100 32 [stock]"
  have a: "gen_bg_from_image plain_lib ?S 128 256 (sconst 0) = Inl AssertionError"
    using gen_bg_from_image_size[of 128 256 plain_lib ?S "sconst 0"] by simp
  have b: "int (rows \<lparr>rows = 128, cols = 256, px = \<lambda>i j. 255\<rparr>) = 128
           \<and> int (cols \<lparr>rows = 128, cols = 256, px = \<lambda>i j. 255\<rparr>) = 256"
    using gen_bg_from_image_size[of 256 128 plain_lib ?S "sconst 0"
            "\<lparr>rows = 128, cols = 256, px = \<lambda>i j. 255\<rparr>" "sconst 0"] w_stock_bg
    by simp
  have p: "bgs ?S = [stock]" "0 < rows stock" "0 < cols stock"
    by (simp_all add: plain_defs stock_def)
  show ?thesis using a b p bright_stock keeps_bright_plain_lib w_stock_bg by simp
qed

text \<open>
  A request with \<open>width > height\<close> that raises: the pool holds a black stock image,
  the integer mean of the blurred crop is 0, and \<^verbatim>\<open>255 / bg_mean\<close> is a
  ZeroDivisionError.
\<close>

theorem gen_bg_from_image_size_counterexample:
  "(128::int) < 256
   \<and> gen_bg_from_image plain_lib
        (plain_renderer False False False 100 32 [\<lparr>rows = 512, cols = 512, px = \<lambda>i j. 0\<rparr>])
        256 128 (sconst 0) = Inl ZeroDivisionError"
proof -
  let ?B = "\<lparr>rows = 512, cols = 512, px = \<lambda>i j. 0\<rparr>"
  have b: "bgs (plain_renderer False False False 100 32 [?B]) = [?B]"
    by (simp add: plain_defs)
  have c: "choice [?B] (sconst 0) = Inr (?B, sconst 0)" by (simp add: choice_def)
  have sc: "bg_scale 256 128 ?B = 1 / 2" by (simp add: bg_scale_def)
  have rs: "cv_resize_scale plain_lib ?B (1 / 2) (1 / 2)
              = Inr \<lparr>rows = 256, cols = 256, px = \<lambda>i j. 0\<rparr>"
    by (simp add: cv_resize_scale_def cv_resize_def np_around_def plain_lib_def Let_def)
  have o: "random_xy_offset 128 256 256 256 (sconst 0) = Inr ((0, 0), sconst 0)"
    by (simp add: random_xy_offset_def randint_def)
  have s: "slice2 \<lparr>rows = 256, cols = 256, px = \<lambda>i j. 0\<rparr> 0 128 0 256
             = \<lparr>rows = 128, cols = 256, px = \<lambda>i j. 0\<rparr>"
    by (simp add: slice2_def slice_index_def)
  have g: "apply_gauss_blur plain_lib \<lparr>rows = 128, cols = 256, px = \<lambda>i j. 0\<rparr>
             (Some [7, 11, 13, 15, 17]) (sconst 0)
           = Inr (\<lparr>rows = 128, cols = 256, px = \<lambda>i j. 0\<rparr>, sconst 0)"
    by (simp add: apply_gauss_blur_def choice_def GaussianBlur_def plain_lib_def)
  have m: "np_mean \<lparr>rows = 128, cols = 256, px = \<lambda>i j. 0\<rparr> = 0"
    by (simp add: np_mean_def)
  show ?thesis
    unfolding gen_bg_from_image_def b c
    by (simp add: sc rs o s g m py_int_def)
qed

text \<open>
  In \<^verbatim>\<open>crop_img\<close>, an output height below 4 allows the placement height 0, and the
  division by it raises.
\<close>

lemma crop_img_zero_dst_height:
  "crop_img plain_lib (plain_renderer False False False 32 3 [])
      \<lparr>rows = 64, cols = 64, px = \<lambda>i j. 240\<rparr>
      [(8, 8), (23, 8), (23, 15), (8, 15)] (sconst 0) = Inl ZeroDivisionError"
proof -
  have o: "out_width (plain_renderer False False False 32 3 []) = 32"
    "out_height (plain_renderer False False False 32 3 []) = 3"
    by (simp_all add: plain_defs)
  have b: "boundingRect [(8, 8), (23, 8), (23, 15), (8, 15)] = (8, 8, 16, 8)"
    by (simp add: boundingRect_def)
  show ?thesis
    unfolding crop_img_def o crop_dst_bbox_def b
    by (simp add: crop_dst_height_def randint_def)
qed

end
